theory Spec2Isabelle
  imports Complex_Main "HOL-Library.AList"
begin

section \<open>The snake game room: data model\<close>

text \<open>
  The embedding follows \<^verbatim>\<open>server/src/rooms/SnakeGameRoom.ts\<close>. JavaScript numbers that hold
  coordinates, angles and speeds are modelled as \<^typ>\<open>real\<close> (the idealisation of IEEE doubles
  without rounding, infinities or NaN); score, food value and the boost accumulator only ever
  hold integers and are modelled as \<^typ>\<open>int\<close>. The schema classes \<^verbatim>\<open>Player\<close>,
  \<^verbatim>\<open>Food\<close>, \<^verbatim>\<open>SnakeSegment\<close>, \<^verbatim>\<open>Vector2\<close> and \<^verbatim>\<open>SnakeGameState\<close> are imported by the room
  from \<^verbatim>\<open>./schema/SnakeGameState\<close>; their fields appear here as record fields.
\<close>

record Vector2 =
  vx :: real
  vy :: real

text \<open>A \<^verbatim>\<open>SnakeSegment\<close> holds only a position, so a body is a list of positions, head first.\<close>

record Player =
  player_id :: string
  player_name :: string
  color :: string
  skinId :: nat
  segments :: "Vector2 list"
  head :: Vector2
  angle :: real
  speed :: real
  boosting :: bool
  boostTime :: int
  score :: int
  kills :: nat
  alive :: bool
  invulnerable :: bool

record Food =
  food_id :: string
  food_position :: Vector2
  food_value :: int

text \<open>
  What the room broadcasts. \<open>PlayerDied\<close> is the message of \<^verbatim>\<open>killPlayer\<close>
  (\<^verbatim>\<open>{ playerId }\<close>); \<open>PlayerDiedNoKiller\<close> is the message of the boundary branch
  (\<^verbatim>\<open>{ playerId, killerSessionId: null }\<close>).
\<close>

datatype event =
    PlayerDied string
  | PlayerDiedNoKiller string
  | PlayerKilled string string
  | FoodSpawned string Vector2 int
  | FoodConsumed string string int

text \<open>
  The room: the synchronised state (\<open>players\<close> and \<open>foods\<close> are insertion-ordered maps,
  modelled as association lists updated with \<^const>\<open>AList.update\<close>, which overwrites in place
  or appends, as \<^verbatim>\<open>Map.set\<close> does), the log of broadcasts in the order they were sent, the
  timeouts scheduled on the clock (delay in ms and the player whose invulnerability ends), and
  the number of \<^verbatim>\<open>Math.random()\<close> draws made so far.
\<close>

record Room =
  players :: "(string \<times> Player) list"
  foods :: "(string \<times> Food) list"
  worldWidth :: real
  worldHeight :: real
  maxFoods :: nat
  worldBoundaryCollisions :: bool
  broadcasts :: "event list"
  timeouts :: "(nat \<times> string) list"
  draws :: nat

text \<open>
  The environment: \<open>random env n\<close> is the result of the \<open>n\<close>-th call of \<^verbatim>\<open>Math.random()\<close>,
  and \<open>foodIdAt env n\<close> is the id string
  \<^verbatim>\<open>`food_${Date.now()}_${Math.random().toString(36).substr(2, 9)}`\<close> built when that call is the
  \<open>n\<close>-th draw. Nothing makes such an id fresh.
\<close>

record Env =
  random :: "nat \<Rightarrow> real"
  foodIdAt :: "nat \<Rightarrow> string"

definition tickRate :: int where
  "tickRate = 16"

section \<open>Arithmetic helpers of the language\<close>

text \<open>
  JavaScript's \<^verbatim>\<open>%\<close> is the remainder of truncated division: the result has the sign of the
  dividend. It is exact on doubles. (For a zero divisor JavaScript gives NaN, which the model
  does not have; every statement below takes a positive divisor.)
\<close>

definition trunc :: "real \<Rightarrow> int" where
  "trunc r = (if 0 \<le> r then \<lfloor>r\<rfloor> else \<lceil>r\<rceil>)"

definition js_rem :: "real \<Rightarrow> real \<Rightarrow> real" where
  "js_rem a b = a - b * of_int (trunc (a / b))"

section \<open>Room plumbing\<close>

text \<open>
  The handlers hold references to player objects and mutate them in place. Every such object
  sits in the \<open>players\<close> map under its session id, so a mutation is an update of the entry
  under that key; \<^const>\<open>AList.map_entry\<close> changes the entry where it stands and leaves the
  order of the map alone.
\<close>

definition modifyPlayer :: "string \<Rightarrow> (Player \<Rightarrow> Player) \<Rightarrow> Room \<Rightarrow> Room" where
  "modifyPlayer k f s = s\<lparr>players := AList.map_entry k f (players s)\<rparr>"

definition broadcast :: "event \<Rightarrow> Room \<Rightarrow> Room" where
  "broadcast e s = s\<lparr>broadcasts := broadcasts s @ [e]\<rparr>"

definition getRandomPosition :: "Env \<Rightarrow> Room \<Rightarrow> Vector2 \<times> Room" where
  "getRandomPosition env s =
     (\<lparr>vx = random env (draws s) * worldWidth s,
       vy = random env (draws s + 1) * worldHeight s\<rparr>,
      s\<lparr>draws := draws s + 2\<rparr>)"

section \<open>Food\<close>

definition spawnFood :: "Env \<Rightarrow> Room \<Rightarrow> Room" where
  "spawnFood env s =
     (let (position, s1) = getRandomPosition env s;
          foodId = foodIdAt env (draws s1);
          v = (if random env (draws s1 + 1) < 5 / 100 then 5 else 1);
          food = \<lparr>food_id = foodId, food_position = position, food_value = v\<rparr>;
          s2 = s1\<lparr>foods := AList.update foodId food (foods s1), draws := draws s1 + 2\<rparr>
      in broadcast (FoodSpawned foodId position v) s2)"

text \<open>
  One round of the loop of \<^verbatim>\<open>spawnFoodFromDeadPlayer\<close>. \<^verbatim>\<open>Math.random()\<close> is below 1, which
  keeps \<open>segmentIndex\<close> below the length of the body in the source; no statement below depends
  on which segment is picked.
\<close>

definition dropOneFood :: "Env \<Rightarrow> Vector2 list \<Rightarrow> Room \<Rightarrow> Room" where
  "dropOneFood env segs s =
     (let n = draws s;
          segmentIndex = nat \<lfloor>random env n * real (length segs)\<rfloor>;
          segment = segs ! segmentIndex;
          foodId = foodIdAt env (n + 1);
          foodX = vx segment + (random env (n + 2) * 40 - 20);
          foodY = vy segment + (random env (n + 3) * 40 - 20);
          pos = \<lparr>vx = foodX, vy = foodY\<rparr>;
          food = \<lparr>food_id = foodId, food_position = pos, food_value = 1\<rparr>;
          s1 = s\<lparr>foods := AList.update foodId food (foods s), draws := n + 4\<rparr>
      in broadcast (FoodSpawned foodId pos 1) s1)"

fun dropFoods :: "Env \<Rightarrow> nat \<Rightarrow> Vector2 list \<Rightarrow> Room \<Rightarrow> Room" where
  "dropFoods env 0 segs s = s"
| "dropFoods env (Suc n) segs s = dropFoods env n segs (dropOneFood env segs s)"

text \<open>The function only reads \<^verbatim>\<open>player.segments\<close>, so it takes the player by value.\<close>

definition spawnFoodFromDeadPlayer :: "Env \<Rightarrow> Player \<Rightarrow> Room \<Rightarrow> Room" where
  "spawnFoodFromDeadPlayer env player s =
     (let foodPerSegment = min (length (segments player) div 3) 20
      in dropFoods env foodPerSegment (segments player) s)"

section \<open>Movement\<close>

definition wrapCoordinate :: "real \<Rightarrow> real \<Rightarrow> real" where
  "wrapCoordinate v m =
     (if v < 0 then m + js_rem v m
      else if v \<ge> m then js_rem v m
      else v)"

definition DEG_TO_RAD :: real where
  "DEG_TO_RAD = pi / 180"

text \<open>
  Modelled from the spec: \<^verbatim>\<open>Player.updateHeadPosition\<close> belongs to the schema file, which is
  not part of the sources at hand. The spec makes the cached head a copy of the position of
  segment 0.
\<close>

definition updateHeadPosition :: "Player \<Rightarrow> Player" where
  "updateHeadPosition p = (case segments p of [] \<Rightarrow> p | h # _ \<Rightarrow> p\<lparr>head := h\<rparr>)"

text \<open>
  Modelled from the spec: \<^verbatim>\<open>Player.addSegment\<close> belongs to the schema file as well. The spec
  lets a new segment start at the position of the current tail; it says nothing about a
  player without segments, where \<^term>\<open>last []\<close> leaves the position open.
\<close>

definition addSegment :: "Player \<Rightarrow> Player" where
  "addSegment p = p\<lparr>segments := segments p @ [last (segments p)]\<rparr>"

text \<open>The boost block of \<^verbatim>\<open>movePlayer\<close>.\<close>

definition boostCost :: "Player \<Rightarrow> Player" where
  "boostCost p =
     (if boosting p then
        (let p1 = p\<lparr>boostTime := boostTime p + tickRate\<rparr> in
         if boostTime p1 \<ge> 500 then
           (let p2 = p1\<lparr>boostTime := 0\<rparr> in
            if length (segments p2) > 5 then
              (let p3 = p2\<lparr>score := max 0 (score p2 - 1)\<rparr> in
               if length (segments p3) > 5 then p3\<lparr>segments := butlast (segments p3)\<rparr>
               else p3\<lparr>boosting := False\<rparr>)
            else p2\<lparr>boosting := False\<rparr>)
         else p1)
      else p\<lparr>boostTime := 0\<rparr>)"

text \<open>
  The loop \<^verbatim>\<open>for (let i = length - 1; i > 0; i--)\<close>: \<open>follow i segs\<close> runs the rounds
  \<open>i, i - 1, \<dots>, 1\<close>, each copying the position of segment \<open>i - 1\<close> into segment \<open>i\<close>.
\<close>

fun follow :: "nat \<Rightarrow> Vector2 list \<Rightarrow> Vector2 list" where
  "follow 0 segs = segs"
| "follow (Suc i) segs = follow i (segs[Suc i := segs ! i])"

text \<open>
  \<^verbatim>\<open>movePlayer\<close> touches the player only and reads the two world dimensions, which are its
  first two arguments here. The speed multiplier is fixed before the boost block runs.
\<close>

definition movePlayer :: "real \<Rightarrow> real \<Rightarrow> Player \<Rightarrow> Player" where
  "movePlayer w h p =
     (if \<not> alive p \<or> length (segments p) = 0 then p
      else
        let angleRad = angle p * DEG_TO_RAD;
            speedMultiplier = (if boosting p then 6 else 3);
            p1 = boostCost p;
            hd0 = segments p1 ! 0;
            dx = cos angleRad * speed p1 * speedMultiplier;
            dy = sin angleRad * speed p1 * speedMultiplier;
            newX = wrapCoordinate (vx hd0 + dx) w;
            newY = wrapCoordinate (vy hd0 + dy) h;
            segs = follow (length (segments p1) - 1) (segments p1);
            p2 = p1\<lparr>segments := segs[0 := \<lparr>vx = newX, vy = newY\<rparr>]\<rparr>
        in updateHeadPosition p2)"

section \<open>Collisions and death\<close>

definition killPlayer :: "string \<Rightarrow> Room \<Rightarrow> Room" where
  "killPlayer k s =
     (case map_of (players s) k of
        None \<Rightarrow> s
      | Some player \<Rightarrow>
          broadcast (PlayerDied (player_id player))
            (modifyPlayer k (\<lambda>p. p\<lparr>alive := False\<rparr>) s))"

definition distance :: "Vector2 \<Rightarrow> Vector2 \<Rightarrow> real" where
  "distance a b =
     sqrt ((vx a - vx b) * (vx a - vx b) + (vy a - vy b) * (vy a - vy b))"

definition headRadius :: real where
  "headRadius = 8"

definition segmentRadius :: real where
  "segmentRadius = 6"

text \<open>
  The callback that \<^verbatim>\<open>checkPlayerCollisions\<close> hands to \<^verbatim>\<open>players.forEach\<close>, for the player
  under key \<open>k\<close> whose head segment was at \<open>h\<close> when the check began. The inner loop starts at
  index 1 and its \<^verbatim>\<open>return\<close> leaves this callback.
\<close>

definition collideWith :: "Env \<Rightarrow> string \<Rightarrow> Vector2 \<Rightarrow> string \<Rightarrow> Room \<Rightarrow> Room" where
  "collideWith env k h otherPlayerId s =
     (case (map_of (players s) k, map_of (players s) otherPlayerId) of
        (Some player, Some otherPlayer) \<Rightarrow>
          if otherPlayerId = player_id player \<or> \<not> alive otherPlayer then s
          else if invulnerable player then s
          else
            (case List.find (\<lambda>segment. distance h segment < headRadius + segmentRadius)
                    (drop 1 (segments otherPlayer)) of
               None \<Rightarrow> s
             | Some _ \<Rightarrow>
                 let s1 = killPlayer k s;
                     s2 = modifyPlayer otherPlayerId
                            (\<lambda>q. q\<lparr>score := score q + score player div 2\<rparr>) s1;
                     s3 = modifyPlayer otherPlayerId (\<lambda>q. q\<lparr>kills := kills q + 1\<rparr>) s2;
                     s4 = broadcast (PlayerKilled (player_id player) (player_id otherPlayer)) s3
                 in spawnFoodFromDeadPlayer env player s4)
      | _ \<Rightarrow> s)"

definition checkPlayerCollisions :: "Env \<Rightarrow> string \<Rightarrow> Room \<Rightarrow> Room" where
  "checkPlayerCollisions env k s =
     (case map_of (players s) k of
        None \<Rightarrow> s
      | Some player \<Rightarrow>
          if \<not> alive player then s
          else
            (case segments player of
               [] \<Rightarrow> s
             | h # _ \<Rightarrow>
                 let s1 = fold (collideWith env k h) (map fst (players s)) s
                 in if worldBoundaryCollisions s1
                       \<and> (vx h < 0 \<or> vx h > worldWidth s1 \<or> vy h < 0 \<or> vy h > worldHeight s1)
                    then
                      spawnFoodFromDeadPlayer env player
                        (broadcast (PlayerDiedNoKiller (player_id player)) (killPlayer k s1))
                    else s1))"

section \<open>The tick\<close>

definition tickPlayer :: "Env \<Rightarrow> string \<Rightarrow> Room \<Rightarrow> Room" where
  "tickPlayer env k s =
     (case map_of (players s) k of
        None \<Rightarrow> s
      | Some player \<Rightarrow>
          if \<not> alive player then s
          else checkPlayerCollisions env k
                 (modifyPlayer k (movePlayer (worldWidth s) (worldHeight s)) s))"

definition updatePlayers :: "Env \<Rightarrow> Room \<Rightarrow> Room" where
  "updatePlayers env s = fold (tickPlayer env) (map fst (players s)) s"

definition gameLoop :: "Env \<Rightarrow> Room \<Rightarrow> Room" where
  "gameLoop env s =
     (let s1 = updatePlayers env s
      in if length (foods s1) < maxFoods s1 then spawnFood env s1 else s1)"

section \<open>Message handlers\<close>

definition initialSegments :: nat where
  "initialSegments = 5"

definition respawnPlayer :: "Env \<Rightarrow> string \<Rightarrow> Room \<Rightarrow> Room" where
  "respawnPlayer env sessionId s =
     (case map_of (players s) sessionId of
        None \<Rightarrow> s
      | Some _ \<Rightarrow>
          let (spawnPosition, s1) = getRandomPosition env s;
              s2 = modifyPlayer sessionId
                     (\<lambda>p. p\<lparr>alive := True, score := 0, kills := 0, segments := [],
                            invulnerable := True\<rparr>) s1;
              s3 = s2\<lparr>timeouts := timeouts s2 @ [(3000, sessionId)]\<rparr>
          in modifyPlayer sessionId
               (\<lambda>p. p\<lparr>segments := segments p @
                        map (\<lambda>i. \<lparr>vx = vx spawnPosition - real i * 20, vy = vy spawnPosition\<rparr>)
                          [0..<initialSegments]\<rparr>) s3)"

definition eatFood :: "Env \<Rightarrow> string \<Rightarrow> string \<Rightarrow> Room \<Rightarrow> Room" where
  "eatFood env sessionId foodId s =
     (case map_of (players s) sessionId of
        None \<Rightarrow> s
      | Some player \<Rightarrow>
          if \<not> alive player then s
          else
            (case map_of (foods s) foodId of
               None \<Rightarrow> s
             | Some food \<Rightarrow>
                 if distance (head player) (food_position food) \<le> 250 then
                   let s1 = modifyPlayer sessionId
                              (\<lambda>p. p\<lparr>score := score p + food_value food\<rparr>) s;
                       segmentsToAdd = (if food_value food > 1 then 3 else 1);
                       s2 = modifyPlayer sessionId (addSegment ^^ segmentsToAdd) s1;
                       s3 = broadcast (FoodConsumed foodId (player_id player) (food_value food)) s2;
                       s4 = s3\<lparr>foods := AList.delete foodId (foods s3)\<rparr>
                   in spawnFood env s4
                 else s))"

text \<open>
  The handler of \<^verbatim>\<open>playerDied\<close> takes an untyped message. \<open>NoPayload\<close> is a message that is
  \<^verbatim>\<open>undefined\<close> or \<^verbatim>\<open>null\<close>: reading \<^verbatim>\<open>message.killerSessionId\<close> then throws a
  \<^verbatim>\<open>TypeError\<close>, after \<^verbatim>\<open>killPlayer\<close> has run and before any food is dropped, and the room
  keeps what \<^verbatim>\<open>killPlayer\<close> did. \<open>Payload None\<close> is any other message without a
  \<^verbatim>\<open>killerSessionId\<close>, and \<open>Payload (Some kid)\<close> one whose \<^verbatim>\<open>killerSessionId\<close> is the string
  \<open>kid\<close>; the handler tests it for truthiness, which an empty string fails. (A truthy
  \<^verbatim>\<open>killerSessionId\<close> that is not a string is no key of the map and behaves as a string that
  names no player.) A handler that throws is the left summand, with the room it leaves.
\<close>

datatype error = TypeError

datatype died_message = NoPayload | Payload "string option"

definition playerDied ::
  "Env \<Rightarrow> string \<Rightarrow> died_message \<Rightarrow> Room \<Rightarrow> (error \<times> Room) + Room" where
  "playerDied env sessionId message s =
     (case map_of (players s) sessionId of
        None \<Rightarrow> Inr s
      | Some player \<Rightarrow>
          if \<not> alive player then Inr s
          else
            let s1 = killPlayer sessionId s
            in (case message of
                  NoPayload \<Rightarrow> Inl (TypeError, s1)
                | Payload killerSessionId \<Rightarrow>
                    let s2 = (case killerSessionId of
                                None \<Rightarrow> s1
                              | Some kid \<Rightarrow>
                                  if kid = [] then s1
                                  else
                                    (case map_of (players s1) kid of
                                       None \<Rightarrow> s1
                                     | Some killer \<Rightarrow>
                                         broadcast (PlayerKilled (player_id player) kid)
                                           (modifyPlayer kid (\<lambda>q. q\<lparr>kills := kills q + 1\<rparr>)
                                             (modifyPlayer kid
                                                (\<lambda>q. q\<lparr>score := score q + score player div 2\<rparr>)
                                                s1))))
                    in Inr (spawnFoodFromDeadPlayer env player s2)))"

section \<open>Example players\<close>

text \<open>
  A body laid out as the respawn loop lays it out: \<open>n\<close> segments, 20 units apart, trailing
  to the left of the head.
\<close>

definition body :: "real \<Rightarrow> real \<Rightarrow> nat \<Rightarrow> Vector2 list" where
  "body x0 y0 n = map (\<lambda>i. \<lparr>vx = x0 - real i * 20, vy = y0\<rparr>) [0..<n]"

definition snake :: "string \<Rightarrow> real \<Rightarrow> real \<Rightarrow> nat \<Rightarrow> int \<Rightarrow> Player" where
  "snake k x0 y0 n sc =
     \<lparr>player_id = k, player_name = k, color = ''#FF5733'', skinId = 0,
      segments = body x0 y0 n, head = \<lparr>vx = x0, vy = y0\<rparr>, angle = 0, speed = 1,
      boosting = False, boostTime = 0, score = sc, kills = 0, alive = True,
      invulnerable = False\<rparr>"

definition boostingSnake :: Player where
  "boostingSnake = (snake ''a'' 500 500 10 10)\<lparr>boosting := True\<rparr>"

section \<open>Example rooms and observations\<close>

definition exampleEnv :: Env where
  "exampleEnv = \<lparr>random = (\<lambda>n. 1 / 2), foodIdAt = (\<lambda>n. ''food_'' @ replicate n (CHR ''i''))\<rparr>"

definition exampleRoom :: "(string \<times> Player) list \<Rightarrow> (string \<times> Food) list \<Rightarrow> nat \<Rightarrow> Room" where
  "exampleRoom ps fs target =
     \<lparr>players = ps, foods = fs, worldWidth = 1000, worldHeight = 1000, maxFoods = target,
      worldBoundaryCollisions = True, broadcasts = [], timeouts = [], draws = 0\<rparr>"

text \<open>A room with one living snake of score 10, and one whose snake is boosting.\<close>

definition soloRoom :: Room where
  "soloRoom = exampleRoom [(''a'', snake ''a'' 500 500 10 10)] [] 3"

definition boostRoom :: Room where
  "boostRoom = exampleRoom [(''a'', boostingSnake)] [] 3"

text \<open>
  A room for eating: a living snake \<open>a\<close> with its head at \<open>(500, 500)\<close>, a dead snake
  \<open>d\<close>, a food of value 5 at distance 100 from the head of \<open>a\<close> and a food of value 1 at
  distance 400.
\<close>

definition feastRoom :: Room where
  "feastRoom =
     exampleRoom
       [(''a'', snake ''a'' 500 500 5 0), (''d'', (snake ''d'' 100 100 5 0)\<lparr>alive := False\<rparr>)]
       [(''f1'', \<lparr>food_id = ''f1'', food_position = \<lparr>vx = 600, vy = 500\<rparr>, food_value = 5\<rparr>),
        (''f2'', \<lparr>food_id = ''f2'', food_position = \<lparr>vx = 900, vy = 500\<rparr>, food_value = 1\<rparr>)]
       3"

text \<open>Rooms without players: one below its food target and one with target 0.\<close>

definition hungryRoom :: Room where
  "hungryRoom = exampleRoom [] [] 3"

definition fullRoom :: Room where
  "fullRoom = exampleRoom [] [] 0"

text \<open>A room with two living snakes, \<open>a\<close> with score 10 and 10 segments, and a dead one.\<close>

definition duelRoom :: Room where
  "duelRoom =
     exampleRoom
       [(''a'', snake ''a'' 500 500 10 10), (''b'', snake ''b'' 100 100 5 4),
        (''d'', (snake ''d'' 800 800 5 0)\<lparr>alive := False\<rparr>)]
       [] 3"

text \<open>
  A room whose snake is about to cross the right edge: head at \<open>x = 995\<close>, heading 0 degrees,
  base speed 3.
\<close>

definition edgeSnake :: Player where
  "edgeSnake = (snake ''a'' 995 500 5 0)\<lparr>speed := 3\<rparr>"

definition edgeRoom :: Room where
  "edgeRoom = exampleRoom [(''a'', edgeSnake)] [] 0"

text \<open>
  A room in which the head of \<open>a\<close>, at \<open>(500, 500)\<close>, lies 5 units from segment 1 of \<open>b\<close>,
  at \<open>(500, 505)\<close>, and 5 units from segment 1 of \<open>c\<close>, at \<open>(500, 495)\<close>.
\<close>

definition pileupRoom :: Room where
  "pileupRoom =
     exampleRoom
       [(''a'', snake ''a'' 500 500 5 10), (''b'', snake ''b'' 520 505 5 0),
        (''c'', snake ''c'' 520 495 5 0)]
       [] 0"

text \<open>The kinds of broadcast that the statements below count.\<close>

fun isBoundaryDeath :: "event \<Rightarrow> bool" where
  "isBoundaryDeath (PlayerDiedNoKiller _) = True"
| "isBoundaryDeath _ = False"

fun isFoodSpawned :: "event \<Rightarrow> bool" where
  "isFoodSpawned (FoodSpawned _ _ _) = True"
| "isFoodSpawned _ = False"

fun isPlayerDied :: "event \<Rightarrow> bool" where
  "isPlayerDied (PlayerDied _) = True"
| "isPlayerDied _ = False"

fun isPlayerKilled :: "event \<Rightarrow> bool" where
  "isPlayerKilled (PlayerKilled _ _) = True"
| "isPlayerKilled _ = False"

definition boundaryDeaths :: "Room \<Rightarrow> event list" where
  "boundaryDeaths s = filter isBoundaryDeath (broadcasts s)"

section \<open>Properties\<close>

subsection \<open>The remainder and the wrap\<close>

lemma js_rem_nonneg:
  assumes "0 \<le> a" and "0 < b"
  shows "0 \<le> js_rem a b" and "js_rem a b < b"
proof -
  define q where "q = \<lfloor>a / b\<rfloor>"
  have t: "trunc (a / b) = q" using assms by (simp add: trunc_def q_def)
  have lo: "of_int q \<le> a / b" and hi: "a / b < of_int q + 1"
    unfolding q_def by linarith+
  have "of_int q * b \<le> a"
    using lo assms(2) by (simp only: pos_le_divide_eq)
  then show "0 \<le> js_rem a b" by (simp add: js_rem_def t mult.commute)
  have "a < (of_int q + 1) * b"
    using hi assms(2) by (simp only: pos_divide_less_eq)
  then show "js_rem a b < b" by (simp add: js_rem_def t algebra_simps)
qed

lemma js_rem_neg:
  assumes "a < 0" and "0 < b"
  shows "- b < js_rem a b" and "js_rem a b \<le> 0"
proof -
  define q where "q = \<lceil>a / b\<rceil>"
  have "a / b < 0" using assms by (simp add: divide_neg_pos)
  then have t: "trunc (a / b) = q" by (simp add: trunc_def q_def)
  have hi: "a / b \<le> of_int q" and lo: "of_int q - 1 < a / b"
    unfolding q_def by linarith+
  have "a \<le> of_int q * b"
    using hi assms(2) by (simp only: pos_divide_le_eq)
  then show "js_rem a b \<le> 0" by (simp add: js_rem_def t mult.commute)
  have "(of_int q - 1) * b < a"
    using lo assms(2) by (simp only: pos_less_divide_eq)
  then show "- b < js_rem a b" by (simp add: js_rem_def t algebra_simps)
qed

lemma wrapCoordinate_range:
  assumes "0 < m"
  shows "0 \<le> wrapCoordinate v m" and "wrapCoordinate v m \<le> m"
  using js_rem_neg [of v m] js_rem_nonneg [of v m] assms
  by (auto simp: wrapCoordinate_def)

text \<open>Every negative whole multiple of a positive dimension is wrapped to the dimension itself.\<close>

lemma wrapCoordinate_negative_multiples:
  assumes "0 < m"
  shows "wrapCoordinate (- (real (Suc n) * m)) m = m"
proof -
  have neg: "- (real (Suc n) * m) < 0"
    using assms by (simp add: mult_pos_pos)
  have q: "- (real (Suc n) * m) / m = - real (Suc n)"
    using assms by simp
  have "- real (Suc n) = of_int (- int (Suc n))" by simp
  then have "\<lceil>- real (Suc n)\<rceil> = - int (Suc n)"
    by (simp only: ceiling_of_int)
  moreover have "\<not> 0 \<le> - real (Suc n)" by simp
  ultimately have t: "trunc (- real (Suc n)) = - int (Suc n)"
    unfolding trunc_def by (simp only: if_False)
  have "js_rem (- (real (Suc n) * m)) m
      = - (real (Suc n) * m) - m * of_int (trunc (- real (Suc n)))"
    unfolding js_rem_def q ..
  also have "\<dots> = - (real (Suc n) * m) - m * of_int (- int (Suc n))"
    by (simp only: t)
  also have "\<dots> = 0"
    by (simp add: algebra_simps)
  finally have "js_rem (- (real (Suc n) * m)) m = 0" .
  then show ?thesis
    using neg by (simp add: wrapCoordinate_def)
qed

text \<open>
  Claim C2 says that the wrapped coordinate lies in the half-open interval \<open>[0, dimension)\<close>
  for every input and every positive dimension, also at exact negative multiples of the
  dimension. The code returns the dimension itself there: for the input \<open>-1000\<close> in a world
  of width \<open>1000\<close> the remainder is zero and the negative branch adds it to the width.
\<close>

theorem wrapCoordinate_negative_multiple:
  "wrapCoordinate (- 1000) 1000 = 1000 \<and> \<not> wrapCoordinate (- 1000) 1000 < 1000"
  by (simp add: wrapCoordinate_def js_rem_def trunc_def)

subsection \<open>Facts about the example players\<close>

lemma body_length: "length (body x0 y0 n) = n"
  by (simp add: body_def)

lemma boostingSnake_fields:
  "alive boostingSnake" "boosting boostingSnake" "boostTime boostingSnake = 0"
  "score boostingSnake = 10" "length (segments boostingSnake) = 10"
  by (simp_all add: boostingSnake_def snake_def body_length)

subsection \<open>One movement step\<close>

lemma follow_length: "length (follow n segs) = length segs"
  by (induction n arbitrary: segs) simp_all

lemma follow_nth:
  "n < length segs \<Longrightarrow> i < length segs \<Longrightarrow>
   follow n segs ! i = (if 0 < i \<and> i \<le> n then segs ! (i - 1) else segs ! i)"
proof (induction n arbitrary: segs)
  case 0
  then show ?case by simp
next
  case (Suc n)
  then show ?case
    by (auto simp: nth_list_update le_Suc_eq)
qed

lemma updateHeadPosition_fields:
  "segments (updateHeadPosition p) = segments p"
  "boosting (updateHeadPosition p) = boosting p"
  "boostTime (updateHeadPosition p) = boostTime p"
  "score (updateHeadPosition p) = score p"
  "alive (updateHeadPosition p) = alive p"
  by (simp_all add: updateHeadPosition_def split: list.split)

lemma boostCost_segments:
  "segments (boostCost p) = segments p \<or>
   (5 < length (segments p) \<and> segments (boostCost p) = butlast (segments p))"
  by (simp add: boostCost_def Let_def)

lemma movePlayer_boost_fields:
  assumes "alive p" and "segments p \<noteq> []"
  shows "boosting (movePlayer w h p) = boosting (boostCost p)"
    and "boostTime (movePlayer w h p) = boostTime (boostCost p)"
    and "score (movePlayer w h p) = score (boostCost p)"
    and "alive (movePlayer w h p) = alive (boostCost p)"
    and "length (segments (movePlayer w h p)) = length (segments (boostCost p))"
  using assms
  by (simp_all add: movePlayer_def Let_def updateHeadPosition_fields follow_length)

lemma movePlayer_nth:
  assumes "alive p" and "segments p \<noteq> []"
    and "0 < i" and "i < length (segments (boostCost p))"
  shows "segments (movePlayer w h p) ! i = segments (boostCost p) ! (i - 1)"
  using assms
  by (simp add: movePlayer_def Let_def updateHeadPosition_fields follow_length follow_nth)

text \<open>
  Claim C7: for a living player with at least one segment and every index \<open>i > 0\<close> of the
  body after one movement step, segment \<open>i\<close> holds the position that segment \<open>i - 1\<close> held
  before the step. The loop \<^const>\<open>follow\<close> runs from the tail to index 1 and the head is
  written after it; a tail segment removed by the boost cost in the same step is no index of
  the body afterwards.
\<close>

theorem movePlayer_follow_the_leader:
  assumes "alive p" and "segments p \<noteq> []"
    and "0 < i" and "i < length (segments (movePlayer w h p))"
  shows "segments (movePlayer w h p) ! i = segments p ! (i - 1)"
proof -
  have len: "i < length (segments (boostCost p))"
    using assms by (simp add: movePlayer_boost_fields)
  have "segments (boostCost p) ! (i - 1) = segments p ! (i - 1)"
    using boostCost_segments [of p] len assms(3) by (auto simp: nth_butlast)
  then show ?thesis using movePlayer_nth [OF assms(1,2,3) len] by simp
qed

subsection \<open>The cost of boosting\<close>

lemma boostCost_idle:
  "boosting p \<Longrightarrow> boostTime p + 16 < 500 \<Longrightarrow> boostCost p = p\<lparr>boostTime := boostTime p + 16\<rparr>"
  by (simp add: boostCost_def tickRate_def Let_def)

lemma boostCost_charge:
  "boosting p \<Longrightarrow> 500 \<le> boostTime p + 16 \<Longrightarrow> 5 < length (segments p) \<Longrightarrow>
   boostCost p = p\<lparr>boostTime := 0, score := max 0 (score p - 1), segments := butlast (segments p)\<rparr>"
  by (simp add: boostCost_def tickRate_def Let_def)

lemma boostCost_stop:
  "boosting p \<Longrightarrow> 500 \<le> boostTime p + 16 \<Longrightarrow> length (segments p) \<le> 5 \<Longrightarrow>
   boostCost p = p\<lparr>boostTime := 0, boosting := False\<rparr>"
  by (simp add: boostCost_def tickRate_def Let_def)

text \<open>
  The state of a boosting player after \<open>n\<close> steps: the accumulator climbs by 16 and is reset
  at every 32nd step, the first at which it has reached 500.
\<close>

lemma boost_progress:
  assumes "alive p" and "boosting p" and "boostTime p = 0" and "0 \<le> score p"
  shows "n div 32 + 5 \<le> length (segments p) \<Longrightarrow>
     alive ((movePlayer w h ^^ n) p) \<and> boosting ((movePlayer w h ^^ n) p)
     \<and> boostTime ((movePlayer w h ^^ n) p) = 16 * int (n mod 32)
     \<and> length (segments ((movePlayer w h ^^ n) p)) = length (segments p) - n div 32
     \<and> score ((movePlayer w h ^^ n) p) = max 0 (score p - int (n div 32))"
proof (induction n)
  case 0
  then show ?case using assms by simp
next
  case (Suc n)
  define q where "q = (movePlayer w h ^^ n) p"
  have le: "n div 32 + 5 \<le> length (segments p)"
    using Suc.prems by (simp add: div_Suc split: if_splits)
  have ih: "alive q" "boosting q" "boostTime q = 16 * int (n mod 32)"
    "length (segments q) = length (segments p) - n div 32"
    "score q = max 0 (score p - int (n div 32))"
    using Suc.IH [OF le] by (simp_all add: q_def)
  have ne: "segments q \<noteq> []" using ih(4) le by auto
  have step: "(movePlayer w h ^^ Suc n) p = movePlayer w h q" by (simp add: q_def)
  note mv = movePlayer_boost_fields [OF ih(1) ne, of w h]
  show ?case
  proof (cases "n mod 32 = 31")
    case True
    then have m: "Suc n mod 32 = 0" and d: "Suc n div 32 = Suc (n div 32)"
      by (simp_all add: mod_Suc div_Suc)
    have big: "5 < length (segments q)" using Suc.prems ih(4) d by simp
    have bc: "boostCost q = q\<lparr>boostTime := 0, score := max 0 (score q - 1),
        segments := butlast (segments q)\<rparr>"
      using ih(2,3) True big by (intro boostCost_charge) simp_all
    have sc: "max 0 (max 0 (score p - int (n div 32)) - 1)
        = max 0 (score p - (1 + int (n div 32)))"
      by linarith
    show ?thesis
      unfolding step using ih le big
      by (simp add: mv bc m d sc)
  next
    case False
    then have lt: "n mod 32 < 31" using mod_less_divisor [of 32 n] by linarith
    then have m: "Suc n mod 32 = Suc (n mod 32)" and d: "Suc n div 32 = n div 32"
      by (simp_all add: mod_Suc div_Suc)
    have bc: "boostCost q = q\<lparr>boostTime := boostTime q + 16\<rparr>"
      using ih(2,3) lt by (intro boostCost_idle) simp_all
    show ?thesis
      unfolding step using ih
      by (simp add: mv bc m d)
  qed
qed

lemma boost_stop:
  assumes "alive p" and "boosting p" and "boostTime p = 0" and "0 \<le> score p"
    and "5 \<le> length (segments p)"
  shows "\<not> boosting ((movePlayer w h ^^ (32 * (length (segments p) - 4))) p)
     \<and> length (segments ((movePlayer w h ^^ (32 * (length (segments p) - 4))) p)) = 5
     \<and> score ((movePlayer w h ^^ (32 * (length (segments p) - 4))) p)
         = max 0 (score p - int (length (segments p) - 5))"
proof -
  define m where "m = 32 * (length (segments p) - 5) + 31"
  define q where "q = (movePlayer w h ^^ m) p"
  have dm: "m div 32 = length (segments p) - 5" and mm: "m mod 32 = 31"
    by (simp_all add: m_def)
  have "m div 32 + 5 \<le> length (segments p)" using assms(5) dm by simp
  from boost_progress [OF assms(1,2,3,4) this, of w h]
  have ih: "alive q" "boosting q" "boostTime q = 496" "length (segments q) = 5"
    "score q = max 0 (score p - int (length (segments p) - 5))"
    using assms(5) by (simp_all add: q_def dm mm)
  have ne: "segments q \<noteq> []" using ih(4) by auto
  have sm: "32 * (length (segments p) - 4) = Suc m" using assms(5) by (simp add: m_def)
  have step: "(movePlayer w h ^^ Suc m) p = movePlayer w h q" by (simp add: q_def)
  have bc: "boostCost q = q\<lparr>boostTime := 0, boosting := False\<rparr>"
    using ih by (intro boostCost_stop) simp_all
  show ?thesis
    unfolding sm step using ih
    by (simp add: movePlayer_boost_fields [OF ih(1) ne] bc)
qed

text \<open>
  Claim C4: boosting for exactly 1500 ms at the constant tick removes exactly 3 segments and
  3 score points, one per 500 ms. With the tick of 16 ms the accumulator passes 500 only at
  512 and is then reset to 0, so the code charges once in 32 steps: 1500 ms hold 93 whole
  steps (the 94th ends at 1504 ms), and after either of them a snake of 10 segments and
  score 10 has lost 2 segments and 2 points; the third charge comes with step 96, at 1536 ms.
\<close>

theorem boost_1500ms_charges_twice:
  "length (segments boostingSnake) = 10 \<and> score boostingSnake = 10
   \<and> length (segments ((movePlayer 1000 1000 ^^ 93) boostingSnake)) = 8
   \<and> score ((movePlayer 1000 1000 ^^ 93) boostingSnake) = 8
   \<and> length (segments ((movePlayer 1000 1000 ^^ 94) boostingSnake)) = 8
   \<and> score ((movePlayer 1000 1000 ^^ 94) boostingSnake) = 8
   \<and> length (segments ((movePlayer 1000 1000 ^^ 96) boostingSnake)) = 7
   \<and> score ((movePlayer 1000 1000 ^^ 96) boostingSnake) = 7"
  using boost_progress [of boostingSnake 93 1000 1000]
    boost_progress [of boostingSnake 94 1000 1000]
    boost_progress [of boostingSnake 96 1000 1000]
  by (simp add: boostingSnake_fields)

subsection \<open>Witnesses for the movement step\<close>

theorem movePlayer_follow_the_leader_witness:
  "alive boostingSnake \<and> segments boostingSnake \<noteq> [] \<and> (0::nat) < 1
   \<and> 1 < length (segments (movePlayer 1000 1000 boostingSnake))
   \<and> segments (movePlayer 1000 1000 boostingSnake) ! 1 = \<lparr>vx = 500, vy = 500\<rparr>
   \<and> segments boostingSnake ! (1 - 1) = \<lparr>vx = 500, vy = 500\<rparr>"
proof -
  have ne: "segments boostingSnake \<noteq> []"
    using boostingSnake_fields(5) by auto
  have len: "1 < length (segments (movePlayer 1000 1000 boostingSnake))"
    using boostingSnake_fields
    by (simp add: movePlayer_boost_fields [OF boostingSnake_fields(1) ne] boostCost_idle)
  have z: "segments boostingSnake ! 0 = \<lparr>vx = 500, vy = 500\<rparr>"
    by (simp add: boostingSnake_def snake_def body_def upt_rec [of 0 10])
  show ?thesis
    using movePlayer_follow_the_leader [OF boostingSnake_fields(1) ne _ len] len ne z
    by (simp add: boostingSnake_fields)
qed

subsection \<open>Room plumbing\<close>

lemma modifyPlayer_fields [simp]:
  "foods (modifyPlayer k f s) = foods s"
  "worldWidth (modifyPlayer k f s) = worldWidth s"
  "worldHeight (modifyPlayer k f s) = worldHeight s"
  "maxFoods (modifyPlayer k f s) = maxFoods s"
  "worldBoundaryCollisions (modifyPlayer k f s) = worldBoundaryCollisions s"
  "broadcasts (modifyPlayer k f s) = broadcasts s"
  "timeouts (modifyPlayer k f s) = timeouts s"
  "draws (modifyPlayer k f s) = draws s"
  by (simp_all add: modifyPlayer_def)

lemma modifyPlayer_lookup:
  "map_of (players (modifyPlayer k f s)) k' =
     (if k' = k then map_option f (map_of (players s) k) else map_of (players s) k')"
  by (simp add: modifyPlayer_def map_of_map_entry split: option.split)

lemma modifyPlayer_keys [simp]:
  "map fst (players (modifyPlayer k f s)) = map fst (players s)"
proof -
  have "map fst (AList.map_entry k f xs) = map fst xs" for xs :: "(string \<times> Player) list"
    by (induction xs) auto
  then show ?thesis by (simp add: modifyPlayer_def)
qed

lemma broadcast_fields [simp]:
  "players (broadcast e s) = players s"
  "foods (broadcast e s) = foods s"
  "worldWidth (broadcast e s) = worldWidth s"
  "worldHeight (broadcast e s) = worldHeight s"
  "maxFoods (broadcast e s) = maxFoods s"
  "worldBoundaryCollisions (broadcast e s) = worldBoundaryCollisions s"
  "broadcasts (broadcast e s) = broadcasts s @ [e]"
  "timeouts (broadcast e s) = timeouts s"
  "draws (broadcast e s) = draws s"
  by (simp_all add: broadcast_def)

subsection \<open>Respawn and death of one player\<close>

lemma upt_5: "[0..<5] = [0, 1, 2, 3, 4]"
  by code_simp

lemma initial_body: "map f [0..<initialSegments] = [f 0, f 1, f 2, f 3, f 4]"
  by (simp add: initialSegments_def upt_5)

lemma respawnPlayer_missing:
  "map_of (players s) k = None \<Longrightarrow> respawnPlayer env k s = s"
  by (simp add: respawnPlayer_def)

lemma respawnPlayer_player:
  assumes "map_of (players s) k = Some p"
  shows "map_of (players (respawnPlayer env k s)) k =
     Some (p\<lparr>alive := True, score := 0, kills := 0,
             segments := body (random env (draws s) * worldWidth s)
                              (random env (draws s + 1) * worldHeight s) initialSegments,
             invulnerable := True\<rparr>)"
  using assms
  by (simp add: respawnPlayer_def getRandomPosition_def Let_def modifyPlayer_lookup body_def)

lemma respawnPlayer_others:
  "k' \<noteq> k \<Longrightarrow> map_of (players (respawnPlayer env k s)) k' = map_of (players s) k'"
  by (simp add: respawnPlayer_def getRandomPosition_def Let_def modifyPlayer_lookup split: option.split)

lemma respawnPlayer_timeouts:
  "map_of (players s) k = Some p \<Longrightarrow>
   timeouts (respawnPlayer env k s) = timeouts s @ [(3000, k)]"
  by (simp add: respawnPlayer_def getRandomPosition_def Let_def)

lemma killPlayer_lookup:
  "map_of (players s) k = Some p \<Longrightarrow>
   map_of (players (killPlayer k s)) k' =
     (if k' = k then Some (p\<lparr>alive := False\<rparr>) else map_of (players s) k')"
  by (simp add: killPlayer_def modifyPlayer_lookup)

lemma killPlayer_fields [simp]:
  "foods (killPlayer k s) = foods s"
  "worldWidth (killPlayer k s) = worldWidth s"
  "worldHeight (killPlayer k s) = worldHeight s"
  "maxFoods (killPlayer k s) = maxFoods s"
  "worldBoundaryCollisions (killPlayer k s) = worldBoundaryCollisions s"
  "timeouts (killPlayer k s) = timeouts s"
  "draws (killPlayer k s) = draws s"
  "map fst (players (killPlayer k s)) = map fst (players s)"
  by (simp_all add: killPlayer_def split: option.split)

lemma killPlayer_broadcasts:
  "map_of (players s) k = Some p \<Longrightarrow>
   broadcasts (killPlayer k s) = broadcasts s @ [PlayerDied (player_id p)]"
  by (simp add: killPlayer_def)

lemma soloRoom_lookup:
  "map_of (players soloRoom) ''a'' = Some (snake ''a'' 500 500 10 10)"
  "map_of (players soloRoom) ''zz'' = None"
  by (simp_all add: soloRoom_def exampleRoom_def)

lemma boostRoom_lookup: "map_of (players boostRoom) ''a'' = Some boostingSnake"
  by (simp add: boostRoom_def exampleRoom_def)

lemma body_5: "body x0 y0 5 = [\<lparr>vx = x0, vy = y0\<rparr>, \<lparr>vx = x0 - 20, vy = y0\<rparr>,
   \<lparr>vx = x0 - 40, vy = y0\<rparr>, \<lparr>vx = x0 - 60, vy = y0\<rparr>, \<lparr>vx = x0 - 80, vy = y0\<rparr>]"
  by (simp add: body_def upt_5)

text \<open>
  Claim C3, as amended: a respawn request is handled for every player present in the room,
  whatever the alive flag. The player becomes alive and invulnerable, with a fresh body of 5
  segments at a new random position and with score and kills at 0, and the timeout that ends
  the invulnerability after 3000 ms is scheduled. The request is a no-op only when no player
  has the session id of the sender.
\<close>

theorem respawnPlayer_any_present_player:
  "(map_of (players s) k = None \<longrightarrow> respawnPlayer env k s = s)
   \<and> (map_of (players s) k = Some p \<longrightarrow>
        map_of (players (respawnPlayer env k s)) k =
          Some (p\<lparr>alive := True, score := 0, kills := 0,
                  segments := body (random env (draws s) * worldWidth s)
                                   (random env (draws s + 1) * worldHeight s) 5,
                  invulnerable := True\<rparr>)
        \<and> timeouts (respawnPlayer env k s) = timeouts s @ [(3000, k)])"
  using respawnPlayer_missing [of s k env] respawnPlayer_player [of s k p env]
    respawnPlayer_timeouts [of s k p env]
  by (simp add: initialSegments_def)

theorem respawnPlayer_any_present_player_witness:
  "map_of (players soloRoom) ''zz'' = None
   \<and> respawnPlayer exampleEnv ''zz'' soloRoom = soloRoom
   \<and> map_of (players soloRoom) ''a'' = Some (snake ''a'' 500 500 10 10)
   \<and> map_of (players (respawnPlayer exampleEnv ''a'' soloRoom)) ''a'' =
       Some ((snake ''a'' 500 500 10 10)\<lparr>alive := True, score := 0, kills := 0,
               segments := body 500 500 5, invulnerable := True\<rparr>)
   \<and> timeouts (respawnPlayer exampleEnv ''a'' soloRoom) = [(3000, ''a'')]"
  using respawnPlayer_any_present_player [of soloRoom "''zz''" exampleEnv "snake ''a'' 500 500 10 10"]
    respawnPlayer_any_present_player [of soloRoom "''a''" exampleEnv "snake ''a'' 500 500 10 10"]
  by (simp add: soloRoom_lookup) (simp add: soloRoom_def exampleRoom_def exampleEnv_def)

text \<open>
  Claim C3 as stated fails: the living snake of score 10 and 10 segments sends a respawn
  request and is left with score 0, 5 segments and the invulnerable flag set.
\<close>

theorem respawn_of_living_player_counterexample:
  "map_of (players soloRoom) ''a'' = Some (snake ''a'' 500 500 10 10)
   \<and> alive (snake ''a'' 500 500 10 10)
   \<and> score (snake ''a'' 500 500 10 10) = 10
   \<and> length (segments (snake ''a'' 500 500 10 10)) = 10
   \<and> \<not> invulnerable (snake ''a'' 500 500 10 10)
   \<and> map_option score (map_of (players (respawnPlayer exampleEnv ''a'' soloRoom)) ''a'') = Some 0
   \<and> map_option (\<lambda>p. length (segments p))
        (map_of (players (respawnPlayer exampleEnv ''a'' soloRoom)) ''a'') = Some 5
   \<and> map_option invulnerable
        (map_of (players (respawnPlayer exampleEnv ''a'' soloRoom)) ''a'') = Some True"
  using respawnPlayer_player [OF soloRoom_lookup(1), of exampleEnv]
  by (simp add: soloRoom_lookup body_length initialSegments_def) (simp add: snake_def body_length)

text \<open>
  Claim C10: the respawn transition changes only the alive flag, score, kills, segment list
  and invulnerable flag of the player, and the death transition only the alive flag; the
  heading angle, the boosting flag and the boost accumulator come through a death followed by
  a respawn with the values they had.
\<close>

theorem respawn_and_kill_frame:
  assumes "map_of (players s) k = Some p"
  shows "map_of (players (killPlayer k s)) k = Some (p\<lparr>alive := False\<rparr>)
     \<and> (\<exists>p'. map_of (players (respawnPlayer env k s)) k = Some p'
           \<and> p' = p\<lparr>alive := alive p', score := score p', kills := kills p',
                    segments := segments p', invulnerable := invulnerable p'\<rparr>
           \<and> angle p' = angle p \<and> boosting p' = boosting p \<and> boostTime p' = boostTime p)
     \<and> (\<exists>p'. map_of (players (respawnPlayer env k (killPlayer k s))) k = Some p'
           \<and> angle p' = angle p \<and> boosting p' = boosting p \<and> boostTime p' = boostTime p)"
proof -
  have k: "map_of (players (killPlayer k s)) k = Some (p\<lparr>alive := False\<rparr>)"
    using killPlayer_lookup [OF assms, of k] by simp
  show ?thesis
    using k respawnPlayer_player [OF assms, of env] respawnPlayer_player [OF k, of env]
    by simp
qed

theorem respawn_and_kill_frame_witness:
  "map_of (players boostRoom) ''a'' = Some boostingSnake
   \<and> boosting boostingSnake
   \<and> map_of (players (killPlayer ''a'' boostRoom)) ''a'' = Some (boostingSnake\<lparr>alive := False\<rparr>)
   \<and> (\<exists>p'. map_of (players (respawnPlayer exampleEnv ''a'' (killPlayer ''a'' boostRoom))) ''a''
             = Some p'
           \<and> angle p' = angle boostingSnake \<and> boosting p' \<and> boostTime p' = 0)"
  using respawn_and_kill_frame [OF boostRoom_lookup, of exampleEnv]
  by (simp add: boostRoom_lookup boostingSnake_fields)

subsection \<open>Spawning food\<close>

lemma length_update:
  "length (AList.update k v al) = (if k \<in> fst ` set al then length al else Suc (length al))"
  by (induction al) auto

lemma spawnFood_fields [simp]:
  "players (spawnFood env s) = players s"
  "worldWidth (spawnFood env s) = worldWidth s"
  "worldHeight (spawnFood env s) = worldHeight s"
  "maxFoods (spawnFood env s) = maxFoods s"
  "worldBoundaryCollisions (spawnFood env s) = worldBoundaryCollisions s"
  "timeouts (spawnFood env s) = timeouts s"
  "draws (spawnFood env s) = draws s + 4"
  by (simp_all add: spawnFood_def getRandomPosition_def Let_def)

lemma spawnFood_foods:
  "foods (spawnFood env s) =
     AList.update (foodIdAt env (draws s + 2))
       \<lparr>food_id = foodIdAt env (draws s + 2),
        food_position = \<lparr>vx = random env (draws s) * worldWidth s,
                          vy = random env (draws s + 1) * worldHeight s\<rparr>,
        food_value = (if random env (draws s + 3) < 5 / 100 then 5 else 1)\<rparr>
       (foods s)"
  by (simp add: spawnFood_def getRandomPosition_def Let_def eval_nat_numeral)

lemma spawnFood_broadcasts:
  "broadcasts (spawnFood env s) =
     broadcasts s @
       [FoodSpawned (foodIdAt env (draws s + 2))
          \<lparr>vx = random env (draws s) * worldWidth s,
           vy = random env (draws s + 1) * worldHeight s\<rparr>
          (if random env (draws s + 3) < 5 / 100 then 5 else 1)]"
  by (simp add: spawnFood_def getRandomPosition_def Let_def eval_nat_numeral)

lemma dropOneFood_fields [simp]:
  "players (dropOneFood env segs s) = players s"
  "worldWidth (dropOneFood env segs s) = worldWidth s"
  "worldHeight (dropOneFood env segs s) = worldHeight s"
  "maxFoods (dropOneFood env segs s) = maxFoods s"
  "worldBoundaryCollisions (dropOneFood env segs s) = worldBoundaryCollisions s"
  "timeouts (dropOneFood env segs s) = timeouts s"
  "draws (dropOneFood env segs s) = draws s + 4"
  by (simp_all add: dropOneFood_def Let_def)

lemma dropOneFood_broadcasts:
  "\<exists>e. isFoodSpawned e \<and> broadcasts (dropOneFood env segs s) = broadcasts s @ [e]"
  by (simp add: dropOneFood_def Let_def)

lemma dropFoods_fields [simp]:
  "players (dropFoods env n segs s) = players s"
  "worldWidth (dropFoods env n segs s) = worldWidth s"
  "worldHeight (dropFoods env n segs s) = worldHeight s"
  "maxFoods (dropFoods env n segs s) = maxFoods s"
  "worldBoundaryCollisions (dropFoods env n segs s) = worldBoundaryCollisions s"
  "timeouts (dropFoods env n segs s) = timeouts s"
  "draws (dropFoods env n segs s) = draws s + 4 * n"
  by (induction n arbitrary: s; simp)+

lemma dropFoods_broadcasts:
  "\<exists>drops. broadcasts (dropFoods env n segs s) = broadcasts s @ drops
     \<and> length drops = n \<and> list_all isFoodSpawned drops"
proof (induction n arbitrary: s)
  case 0
  then show ?case by simp
next
  case (Suc n)
  obtain e where e: "isFoodSpawned e"
      "broadcasts (dropOneFood env segs s) = broadcasts s @ [e]"
    using dropOneFood_broadcasts by blast
  obtain drops where d:
      "broadcasts (dropFoods env n segs (dropOneFood env segs s))
         = broadcasts (dropOneFood env segs s) @ drops"
      "length drops = n" "list_all isFoodSpawned drops"
    using Suc.IH by blast
  have "broadcasts (dropFoods env (Suc n) segs s) = broadcasts s @ (e # drops)"
    using e d by simp
  moreover have "length (e # drops) = Suc n" using d by simp
  moreover have "list_all isFoodSpawned (e # drops)" using e d by simp
  ultimately show ?case by blast
qed

lemma spawnFoodFromDeadPlayer_fields [simp]:
  "players (spawnFoodFromDeadPlayer env p s) = players s"
  "worldWidth (spawnFoodFromDeadPlayer env p s) = worldWidth s"
  "worldHeight (spawnFoodFromDeadPlayer env p s) = worldHeight s"
  "maxFoods (spawnFoodFromDeadPlayer env p s) = maxFoods s"
  "worldBoundaryCollisions (spawnFoodFromDeadPlayer env p s) = worldBoundaryCollisions s"
  "timeouts (spawnFoodFromDeadPlayer env p s) = timeouts s"
  by (simp_all add: spawnFoodFromDeadPlayer_def Let_def)

lemma spawnFoodFromDeadPlayer_broadcasts:
  "\<exists>drops. broadcasts (spawnFoodFromDeadPlayer env p s) = broadcasts s @ drops
     \<and> length drops = min (length (segments p) div 3) 20 \<and> list_all isFoodSpawned drops"
  using dropFoods_broadcasts [of env "min (length (segments p) div 3) 20" "segments p" s]
  by (simp add: spawnFoodFromDeadPlayer_def Let_def)

subsection \<open>Eating food\<close>

lemma addSegment_funpow:
  "(addSegment ^^ n) p = p\<lparr>segments := segments p @ replicate n (last (segments p))\<rparr>"
proof (induction n)
  case 0
  then show ?case by simp
next
  case (Suc n)
  have l: "last (segments p @ replicate n (last (segments p))) = last (segments p)"
    by (cases n) simp_all
  have "(addSegment ^^ Suc n) p = addSegment ((addSegment ^^ n) p)" by simp
  also have "\<dots> = addSegment (p\<lparr>segments := segments p @ replicate n (last (segments p))\<rparr>)"
    by (simp only: Suc)
  also have "\<dots> = p\<lparr>segments := segments p @ replicate (Suc n) (last (segments p))\<rparr>"
    by (simp add: addSegment_def l replicate_append_same)
  finally show ?case .
qed

lemma eatFood_noop:
  "map_of (players s) k = None \<Longrightarrow> eatFood env k f s = s"
  "map_of (players s) k = Some p \<Longrightarrow> \<not> alive p \<Longrightarrow> eatFood env k f s = s"
  "map_of (foods s) f = None \<Longrightarrow> eatFood env k f s = s"
  "map_of (players s) k = Some p \<Longrightarrow> map_of (foods s) f = Some food \<Longrightarrow>
     250 < distance (head p) (food_position food) \<Longrightarrow> eatFood env k f s = s"
  by (simp_all add: eatFood_def split: option.split)

lemma eatFood_success:
  assumes "map_of (players s) k = Some p" and "alive p"
    and "map_of (foods s) f = Some food"
    and "distance (head p) (food_position food) \<le> 250"
  shows "eatFood env k f s =
     spawnFood env
       ((broadcast (FoodConsumed f (player_id p) (food_value food))
          (modifyPlayer k (addSegment ^^ (if 1 < food_value food then 3 else 1))
            (modifyPlayer k (\<lambda>q. q\<lparr>score := score q + food_value food\<rparr>) s)))
        \<lparr>foods := AList.delete f (foods s)\<rparr>)"
  using assms by (simp add: eatFood_def Let_def)

lemma eatFood_player:
  assumes "map_of (players s) k = Some p" and "alive p"
    and "map_of (foods s) f = Some food"
    and "distance (head p) (food_position food) \<le> 250"
  shows "map_of (players (eatFood env k f s)) k =
     Some (p\<lparr>score := score p + food_value food,
             segments := segments p
               @ replicate (if 1 < food_value food then 3 else 1) (last (segments p))\<rparr>)"
  using assms(1)
  by (simp add: eatFood_success [OF assms] modifyPlayer_lookup addSegment_funpow)

lemma distance_le_iff:
  "0 \<le> d \<Longrightarrow>
   distance a b \<le> d \<longleftrightarrow> (vx a - vx b) * (vx a - vx b) + (vy a - vy b) * (vy a - vy b) \<le> d * d"
proof -
  assume d: "0 \<le> d"
  have "sqrt (d * d) = d" using d by simp
  then show ?thesis
    unfolding distance_def by (metis real_sqrt_le_iff)
qed

lemma distance_less_iff:
  "0 \<le> d \<Longrightarrow>
   distance a b < d \<longleftrightarrow> (vx a - vx b) * (vx a - vx b) + (vy a - vy b) * (vy a - vy b) < d * d"
proof -
  assume d: "0 \<le> d"
  have "sqrt (d * d) = d" using d by simp
  then show ?thesis
    unfolding distance_def by (metis real_sqrt_less_iff)
qed

text \<open>
  Claim C5: an \<^verbatim>\<open>eatFood\<close> message from a living player that names an existing food at
  distance at most 250 from the player's head adds the food's value to the score, appends 3
  tail segments when the value is above 1 and 1 segment otherwise, deletes the food, spawns
  one food in its place and broadcasts \<^verbatim>\<open>foodConsumed\<close> before the \<^verbatim>\<open>foodSpawned\<close> of the
  replacement. When the player is missing or dead, the food id is unknown or the distance is
  above 250, the room is left as it was.
\<close>

theorem eatFood_consumes_or_ignores:
  "(map_of (players s) k = Some p \<and> alive p \<and> map_of (foods s) f = Some food
      \<and> distance (head p) (food_position food) \<le> 250 \<longrightarrow>
      map_of (players (eatFood env k f s)) k =
        Some (p\<lparr>score := score p + food_value food,
                segments := segments p
                  @ replicate (if 1 < food_value food then 3 else 1) (last (segments p))\<rparr>)
      \<and> foods (eatFood env k f s) =
          AList.update (foodIdAt env (draws s + 2))
            \<lparr>food_id = foodIdAt env (draws s + 2),
             food_position = \<lparr>vx = random env (draws s) * worldWidth s,
                               vy = random env (draws s + 1) * worldHeight s\<rparr>,
             food_value = (if random env (draws s + 3) < 5 / 100 then 5 else 1)\<rparr>
            (AList.delete f (foods s))
      \<and> (foodIdAt env (draws s + 2) \<noteq> f \<longrightarrow> map_of (foods (eatFood env k f s)) f = None)
      \<and> broadcasts (eatFood env k f s) =
          broadcasts s @
            [FoodConsumed f (player_id p) (food_value food),
             FoodSpawned (foodIdAt env (draws s + 2))
               \<lparr>vx = random env (draws s) * worldWidth s,
                vy = random env (draws s + 1) * worldHeight s\<rparr>
               (if random env (draws s + 3) < 5 / 100 then 5 else 1)])
   \<and> (map_of (players s) k = None
        \<or> (map_of (players s) k = Some p \<and> \<not> alive p)
        \<or> map_of (foods s) f = None
        \<or> (map_of (players s) k = Some p \<and> map_of (foods s) f = Some food
             \<and> 250 < distance (head p) (food_position food)) \<longrightarrow>
       eatFood env k f s = s)"
proof (intro conjI impI)
  assume a: "map_of (players s) k = Some p \<and> alive p \<and> map_of (foods s) f = Some food
      \<and> distance (head p) (food_position food) \<le> 250"
  then have h: "map_of (players s) k = Some p" "alive p" "map_of (foods s) f = Some food"
      "distance (head p) (food_position food) \<le> 250"
    by simp_all
  note eq = eatFood_success [OF h, of env]
  show "map_of (players (eatFood env k f s)) k =
        Some (p\<lparr>score := score p + food_value food,
                segments := segments p
                  @ replicate (if 1 < food_value food then 3 else 1) (last (segments p))\<rparr>)"
    by (rule eatFood_player [OF h])
  show fs: "foods (eatFood env k f s) =
          AList.update (foodIdAt env (draws s + 2))
            \<lparr>food_id = foodIdAt env (draws s + 2),
             food_position = \<lparr>vx = random env (draws s) * worldWidth s,
                               vy = random env (draws s + 1) * worldHeight s\<rparr>,
             food_value = (if random env (draws s + 3) < 5 / 100 then 5 else 1)\<rparr>
            (AList.delete f (foods s))"
    by (simp add: eq spawnFood_foods)
  show "map_of (foods (eatFood env k f s)) f = None" if "foodIdAt env (draws s + 2) \<noteq> f"
    using that by (simp add: fs update_conv' delete_conv')
  show "broadcasts (eatFood env k f s) =
          broadcasts s @
            [FoodConsumed f (player_id p) (food_value food),
             FoodSpawned (foodIdAt env (draws s + 2))
               \<lparr>vx = random env (draws s) * worldWidth s,
                vy = random env (draws s + 1) * worldHeight s\<rparr>
               (if random env (draws s + 3) < 5 / 100 then 5 else 1)]"
    by (simp add: eq spawnFood_broadcasts)
next
  assume "map_of (players s) k = None
        \<or> (map_of (players s) k = Some p \<and> \<not> alive p)
        \<or> map_of (foods s) f = None
        \<or> (map_of (players s) k = Some p \<and> map_of (foods s) f = Some food
             \<and> 250 < distance (head p) (food_position food))"
  then show "eatFood env k f s = s"
    by (auto intro: eatFood_noop)
qed

subsection \<open>Witness for eating\<close>

lemma feastRoom_lookup:
  "map_of (players feastRoom) ''a'' = Some (snake ''a'' 500 500 5 0)"
  "map_of (players feastRoom) ''d'' = Some ((snake ''d'' 100 100 5 0)\<lparr>alive := False\<rparr>)"
  "map_of (players feastRoom) ''zz'' = None"
  "map_of (foods feastRoom) ''f1'' =
     Some \<lparr>food_id = ''f1'', food_position = \<lparr>vx = 600, vy = 500\<rparr>, food_value = 5\<rparr>"
  "map_of (foods feastRoom) ''f2'' =
     Some \<lparr>food_id = ''f2'', food_position = \<lparr>vx = 900, vy = 500\<rparr>, food_value = 1\<rparr>"
  "map_of (foods feastRoom) ''f9'' = None"
  by (simp_all add: feastRoom_def exampleRoom_def)

lemma feastRoom_fields:
  "draws feastRoom = 0" "worldWidth feastRoom = 1000" "worldHeight feastRoom = 1000"
  "broadcasts feastRoom = []"
  by (simp_all add: feastRoom_def exampleRoom_def)

lemma snake_fields:
  "alive (snake k x0 y0 n sc)" "head (snake k x0 y0 n sc) = \<lparr>vx = x0, vy = y0\<rparr>"
  "score (snake k x0 y0 n sc) = sc" "player_id (snake k x0 y0 n sc) = k"
  "segments (snake k x0 y0 n sc) = body x0 y0 n" "\<not> invulnerable (snake k x0 y0 n sc)"
  "kills (snake k x0 y0 n sc) = 0"
  by (simp_all add: snake_def)

theorem eatFood_consumes_or_ignores_witness:
  "map_of (players feastRoom) ''a'' = Some (snake ''a'' 500 500 5 0)
   \<and> alive (snake ''a'' 500 500 5 0)
   \<and> map_of (foods feastRoom) ''f1'' =
        Some \<lparr>food_id = ''f1'', food_position = \<lparr>vx = 600, vy = 500\<rparr>, food_value = 5\<rparr>
   \<and> distance (head (snake ''a'' 500 500 5 0)) \<lparr>vx = 600, vy = 500\<rparr> \<le> 250
   \<and> map_of (players (eatFood exampleEnv ''a'' ''f1'' feastRoom)) ''a'' =
        Some ((snake ''a'' 500 500 5 0)\<lparr>score := 5,
                segments := body 500 500 5 @ replicate 3 \<lparr>vx = 420, vy = 500\<rparr>\<rparr>)
   \<and> map_of (foods (eatFood exampleEnv ''a'' ''f1'' feastRoom)) ''f1'' = None
   \<and> broadcasts (eatFood exampleEnv ''a'' ''f1'' feastRoom) =
        [FoodConsumed ''f1'' ''a'' 5, FoodSpawned ''food_ii'' \<lparr>vx = 500, vy = 500\<rparr> 1]
   \<and> eatFood exampleEnv ''zz'' ''f1'' feastRoom = feastRoom
   \<and> eatFood exampleEnv ''d'' ''f1'' feastRoom = feastRoom
   \<and> eatFood exampleEnv ''a'' ''f9'' feastRoom = feastRoom
   \<and> eatFood exampleEnv ''a'' ''f2'' feastRoom = feastRoom"
proof -
  have near: "distance (head (snake ''a'' 500 500 5 0)) \<lparr>vx = 600, vy = 500\<rparr> \<le> 250"
    by (simp add: distance_le_iff snake_fields)
  have far: "250 < distance (head (snake ''a'' 500 500 5 0)) \<lparr>vx = 900, vy = 500\<rparr>"
    by (simp add: distance_le_iff snake_fields not_le [symmetric])
  have env: "foodIdAt exampleEnv (Suc (Suc 0)) = ''food_ii''" "random exampleEnv n = 1 / 2" for n
    by (simp_all add: exampleEnv_def)
  have l: "last (body 500 500 5) = \<lparr>vx = 420, vy = 500\<rparr>"
    by (simp add: body_5)
  show ?thesis
    using near far
      eatFood_consumes_or_ignores [of feastRoom "''a''" "snake ''a'' 500 500 5 0" "''f1''"
        "\<lparr>food_id = ''f1'', food_position = \<lparr>vx = 600, vy = 500\<rparr>, food_value = 5\<rparr>" exampleEnv]
      eatFood_consumes_or_ignores [of feastRoom "''zz''" _ "''f1''" _ exampleEnv]
      eatFood_consumes_or_ignores [of feastRoom "''d''"
        "(snake ''d'' 100 100 5 0)\<lparr>alive := False\<rparr>" "''f1''" _ exampleEnv]
      eatFood_consumes_or_ignores [of feastRoom "''a''" _ "''f9''" _ exampleEnv]
      eatFood_consumes_or_ignores [of feastRoom "''a''" "snake ''a'' 500 500 5 0" "''f2''"
        "\<lparr>food_id = ''f2'', food_position = \<lparr>vx = 900, vy = 500\<rparr>, food_value = 1\<rparr>" exampleEnv]
    by (simp add: feastRoom_lookup feastRoom_fields snake_fields env l)
       (simp add: feastRoom_def exampleRoom_def)
qed

subsection \<open>The top-up of the tick\<close>

lemma updatePlayers_fields [simp]:
  "players s = [] \<Longrightarrow> updatePlayers env s = s"
  by (simp add: updatePlayers_def)

text \<open>
  Claim C6: after the players have been updated, the tick spawns exactly one food when the
  food count is below the target and none otherwise, so the count after a top-up is at most
  the target. The food spawned has value 5 when its draw of \<^verbatim>\<open>Math.random()\<close> is below 0.05
  and value 1 otherwise, and its position is a draw times the width and a draw times the
  height of the world.
\<close>

theorem gameLoop_top_up:
  assumes "s1 = updatePlayers env s"
  shows "(length (foods s1) < maxFoods s1 \<longrightarrow>
        gameLoop env s = spawnFood env s1
      \<and> broadcasts (gameLoop env s) =
          broadcasts s1 @
            [FoodSpawned (foodIdAt env (draws s1 + 2))
               \<lparr>vx = random env (draws s1) * worldWidth s1,
                vy = random env (draws s1 + 1) * worldHeight s1\<rparr>
               (if random env (draws s1 + 3) < 5 / 100 then 5 else 1)]
      \<and> foods (gameLoop env s) =
          AList.update (foodIdAt env (draws s1 + 2))
            \<lparr>food_id = foodIdAt env (draws s1 + 2),
             food_position = \<lparr>vx = random env (draws s1) * worldWidth s1,
                               vy = random env (draws s1 + 1) * worldHeight s1\<rparr>,
             food_value = (if random env (draws s1 + 3) < 5 / 100 then 5 else 1)\<rparr>
            (foods s1)
      \<and> length (foods (gameLoop env s)) \<le> Suc (length (foods s1))
      \<and> length (foods (gameLoop env s)) \<le> maxFoods s1)
   \<and> (\<not> length (foods s1) < maxFoods s1 \<longrightarrow> gameLoop env s = s1)"
proof -
  have g: "gameLoop env s = (if length (foods s1) < maxFoods s1 then spawnFood env s1 else s1)"
    by (simp add: gameLoop_def Let_def assms)
  show ?thesis
    by (simp add: g spawnFood_foods spawnFood_broadcasts length_update)
qed

theorem gameLoop_top_up_witness:
  "hungryRoom = updatePlayers exampleEnv hungryRoom
   \<and> length (foods hungryRoom) < maxFoods hungryRoom
   \<and> broadcasts (gameLoop exampleEnv hungryRoom) =
        [FoodSpawned ''food_ii'' \<lparr>vx = 500, vy = 500\<rparr> 1]
   \<and> length (foods (gameLoop exampleEnv hungryRoom)) = 1
   \<and> fullRoom = updatePlayers exampleEnv fullRoom
   \<and> \<not> length (foods fullRoom) < maxFoods fullRoom
   \<and> gameLoop exampleEnv fullRoom = fullRoom"
proof -
  have u: "hungryRoom = updatePlayers exampleEnv hungryRoom"
      "fullRoom = updatePlayers exampleEnv fullRoom"
    by (simp_all add: hungryRoom_def fullRoom_def exampleRoom_def)
  have env: "foodIdAt exampleEnv (Suc (Suc 0)) = ''food_ii''" "random exampleEnv n = 1 / 2" for n
    by (simp_all add: exampleEnv_def)
  have f: "foods hungryRoom = []" "maxFoods hungryRoom = 3" "draws hungryRoom = 0"
      "broadcasts hungryRoom = []" "worldWidth hungryRoom = 1000" "worldHeight hungryRoom = 1000"
      "foods fullRoom = []" "maxFoods fullRoom = 0"
    by (simp_all add: hungryRoom_def fullRoom_def exampleRoom_def)
  show ?thesis
    using gameLoop_top_up [OF u(1)] gameLoop_top_up [OF u(2)] u
    by (simp add: f env spawnFood_broadcasts spawnFood_foods)
qed

subsection \<open>Death reported by the client\<close>

lemma food_events_only:
  "list_all isFoodSpawned evs \<Longrightarrow>
   filter isPlayerKilled evs = [] \<and> filter isPlayerDied evs = []
   \<and> filter isBoundaryDeath evs = []"
proof (induction evs)
  case Nil
  then show ?case by simp
next
  case (Cons e evs)
  then show ?case by (cases e) simp_all
qed

lemma playerDied_noop:
  "map_of (players s) k = None \<Longrightarrow> playerDied env k msg s = Inr s"
  "map_of (players s) k = Some p \<Longrightarrow> \<not> alive p \<Longrightarrow> playerDied env k msg s = Inr s"
  by (simp_all add: playerDied_def)

text \<open>Without a payload the handler throws once the sender is dead, and no food is dropped.\<close>

lemma playerDied_without_payload:
  "map_of (players s) k = Some p \<Longrightarrow> alive p \<Longrightarrow>
   playerDied env k NoPayload s = Inl (TypeError, killPlayer k s)"
  by (simp add: playerDied_def Let_def)

lemma playerDied_unnamed:
  assumes "map_of (players s) k = Some p" and "alive p"
    and "kid = None \<or> kid = Some [] \<or> (kid = Some kn \<and> map_of (players s) kn = None)"
  shows "playerDied env k (Payload kid) s = Inr (spawnFoodFromDeadPlayer env p (killPlayer k s))"
proof -
  have "map_of (players (killPlayer k s)) kn = None" if "map_of (players s) kn = None"
    using that assms(1) killPlayer_lookup [OF assms(1), of kn] by auto
  then show ?thesis
    using assms by (auto simp: playerDied_def Let_def)
qed

lemma playerDied_named:
  assumes "map_of (players s) k = Some p" and "alive p"
    and "kn \<noteq> []" and "map_of (players s) kn = Some q"
  shows "playerDied env k (Payload (Some kn)) s =
     Inr (spawnFoodFromDeadPlayer env p
       (broadcast (PlayerKilled (player_id p) kn)
          (modifyPlayer kn (\<lambda>q. q\<lparr>kills := kills q + 1\<rparr>)
             (modifyPlayer kn (\<lambda>q. q\<lparr>score := score q + score p div 2\<rparr>)
                (killPlayer k s)))))"
proof -
  have "map_of (players (killPlayer k s)) kn \<noteq> None"
    using assms(4) killPlayer_lookup [OF assms(1), of kn] by auto
  then show ?thesis
    using assms by (auto simp: playerDied_def Let_def)
qed

text \<open>
  Claim C9, as amended: a \<^verbatim>\<open>playerDied\<close> message with a payload from a living player makes
  that player dead, broadcasts the death and drops food from the body, and the handler
  returns. When the payload carries a non-empty killer id that names a player present in the
  room, that player (who may be the sender) gains half the victim's score, rounded down, and
  one kill, and \<^verbatim>\<open>playerKilled\<close> is broadcast with both ids. When the killer id is absent,
  empty or names nobody in the room, nothing is transferred and no \<^verbatim>\<open>playerKilled\<close> is
  broadcast. The message of a missing or dead sender changes nothing.
\<close>

theorem playerDied_transition:
  "(map_of (players s) k = Some p \<and> alive p \<and> kn \<noteq> [] \<and> map_of (players s) kn = Some q \<longrightarrow>
      (\<exists>s'. playerDied env k (Payload (Some kn)) s = Inr s'
        \<and> map_option alive (map_of (players s') k) = Some False
        \<and> map_of (players s') kn =
            Some ((if kn = k then q\<lparr>alive := False\<rparr> else q)
                    \<lparr>score := score q + score p div 2, kills := kills q + 1\<rparr>)
        \<and> (\<exists>drops. broadcasts s' =
              broadcasts s @ [PlayerDied (player_id p), PlayerKilled (player_id p) kn] @ drops
            \<and> length drops = min (length (segments p) div 3) 20
            \<and> list_all isFoodSpawned drops)))
   \<and> (map_of (players s) k = Some p \<and> alive p
        \<and> (kid = None \<or> kid = Some [] \<or> (kid = Some kn \<and> map_of (players s) kn = None)) \<longrightarrow>
      (\<exists>s'. playerDied env k (Payload kid) s = Inr s'
        \<and> (\<forall>k'. map_of (players s') k' =
              (if k' = k then Some (p\<lparr>alive := False\<rparr>) else map_of (players s) k'))
        \<and> (\<exists>drops. broadcasts s' = broadcasts s @ [PlayerDied (player_id p)] @ drops
            \<and> length drops = min (length (segments p) div 3) 20
            \<and> list_all isFoodSpawned drops)))
   \<and> (map_of (players s) k = None \<or> (map_of (players s) k = Some p \<and> \<not> alive p) \<longrightarrow>
        playerDied env k msg s = Inr s)"
proof (intro conjI impI)
  assume a: "map_of (players s) k = Some p \<and> alive p \<and> kn \<noteq> [] \<and> map_of (players s) kn = Some q"
  then have h: "map_of (players s) k = Some p" "alive p" "kn \<noteq> []" "map_of (players s) kn = Some q"
    by simp_all
  define s' where "s' = spawnFoodFromDeadPlayer env p
       (broadcast (PlayerKilled (player_id p) kn)
          (modifyPlayer kn (\<lambda>q. q\<lparr>kills := kills q + 1\<rparr>)
             (modifyPlayer kn (\<lambda>q. q\<lparr>score := score q + score p div 2\<rparr>)
                (killPlayer k s))))"
  have eq: "playerDied env k (Payload (Some kn)) s = Inr s'"
    unfolding s'_def by (rule playerDied_named [OF h])
  have pq: "kn = k \<Longrightarrow> q = p" using h by simp
  have kl: "map_of (players (killPlayer k s)) k = Some (p\<lparr>alive := False\<rparr>)"
    by (simp add: killPlayer_lookup [OF h(1)])
  have dead: "map_option alive (map_of (players s') k) = Some False"
  proof (cases "kn = k")
    case True
    then show ?thesis by (simp add: s'_def modifyPlayer_lookup kl)
  next
    case False
    then show ?thesis by (simp add: s'_def modifyPlayer_lookup kl)
  qed
  have credit: "map_of (players s') kn =
          Some ((if kn = k then q\<lparr>alive := False\<rparr> else q)
                  \<lparr>score := score q + score p div 2, kills := kills q + 1\<rparr>)"
  proof (cases "kn = k")
    case True
    then show ?thesis using pq by (simp add: s'_def modifyPlayer_lookup kl)
  next
    case False
    then show ?thesis
      using h(4) by (simp add: s'_def modifyPlayer_lookup killPlayer_lookup [OF h(1)])
  qed
  obtain drops where d:
    "broadcasts s' =
       broadcasts (broadcast (PlayerKilled (player_id p) kn)
          (modifyPlayer kn (\<lambda>q. q\<lparr>kills := kills q + 1\<rparr>)
             (modifyPlayer kn (\<lambda>q. q\<lparr>score := score q + score p div 2\<rparr>)
                (killPlayer k s)))) @ drops"
    "length drops = min (length (segments p) div 3) 20" "list_all isFoodSpawned drops"
    unfolding s'_def using spawnFoodFromDeadPlayer_broadcasts by blast
  have "\<exists>drops. broadcasts s' =
            broadcasts s @ [PlayerDied (player_id p), PlayerKilled (player_id p) kn] @ drops
          \<and> length drops = min (length (segments p) div 3) 20
          \<and> list_all isFoodSpawned drops"
    using d by (simp add: killPlayer_broadcasts [OF h(1)])
  then show "\<exists>s'. playerDied env k (Payload (Some kn)) s = Inr s'
        \<and> map_option alive (map_of (players s') k) = Some False
        \<and> map_of (players s') kn =
            Some ((if kn = k then q\<lparr>alive := False\<rparr> else q)
                    \<lparr>score := score q + score p div 2, kills := kills q + 1\<rparr>)
        \<and> (\<exists>drops. broadcasts s' =
              broadcasts s @ [PlayerDied (player_id p), PlayerKilled (player_id p) kn] @ drops
            \<and> length drops = min (length (segments p) div 3) 20
            \<and> list_all isFoodSpawned drops)"
    using eq dead credit by blast
next
  assume a: "map_of (players s) k = Some p \<and> alive p
        \<and> (kid = None \<or> kid = Some [] \<or> (kid = Some kn \<and> map_of (players s) kn = None))"
  then have h: "map_of (players s) k = Some p" "alive p"
    "kid = None \<or> kid = Some [] \<or> (kid = Some kn \<and> map_of (players s) kn = None)"
    by simp_all
  define s' where "s' = spawnFoodFromDeadPlayer env p (killPlayer k s)"
  have eq: "playerDied env k (Payload kid) s = Inr s'"
    unfolding s'_def by (rule playerDied_unnamed [OF h])
  have pl: "\<forall>k'. map_of (players s') k' =
          (if k' = k then Some (p\<lparr>alive := False\<rparr>) else map_of (players s) k')"
    by (simp add: s'_def killPlayer_lookup [OF h(1)])
  obtain drops where d:
    "broadcasts s' = broadcasts (killPlayer k s) @ drops"
    "length drops = min (length (segments p) div 3) 20" "list_all isFoodSpawned drops"
    unfolding s'_def using spawnFoodFromDeadPlayer_broadcasts by blast
  have "\<exists>drops. broadcasts s' = broadcasts s @ [PlayerDied (player_id p)] @ drops
          \<and> length drops = min (length (segments p) div 3) 20
          \<and> list_all isFoodSpawned drops"
    using d by (simp add: killPlayer_broadcasts [OF h(1)])
  then show "\<exists>s'. playerDied env k (Payload kid) s = Inr s'
        \<and> (\<forall>k'. map_of (players s') k' =
              (if k' = k then Some (p\<lparr>alive := False\<rparr>) else map_of (players s) k'))
        \<and> (\<exists>drops. broadcasts s' = broadcasts s @ [PlayerDied (player_id p)] @ drops
            \<and> length drops = min (length (segments p) div 3) 20
            \<and> list_all isFoodSpawned drops)"
    using eq pl by blast
next
  assume "map_of (players s) k = None \<or> (map_of (players s) k = Some p \<and> \<not> alive p)"
  then show "playerDied env k msg s = Inr s"
    by (auto intro: playerDied_noop)
qed

lemma duelRoom_lookup:
  "map_of (players duelRoom) ''a'' = Some (snake ''a'' 500 500 10 10)"
  "map_of (players duelRoom) ''b'' = Some (snake ''b'' 100 100 5 4)"
  "map_of (players duelRoom) ''d'' = Some ((snake ''d'' 800 800 5 0)\<lparr>alive := False\<rparr>)"
  "map_of (players duelRoom) ''zz'' = None"
  "map_of (players duelRoom) ''ghost'' = None"
  "broadcasts duelRoom = []"
  by (simp_all add: duelRoom_def exampleRoom_def)

theorem playerDied_transition_witness:
  "map_of (players duelRoom) ''a'' = Some (snake ''a'' 500 500 10 10)
   \<and> alive (snake ''a'' 500 500 10 10)
   \<and> map_of (players duelRoom) ''b'' = Some (snake ''b'' 100 100 5 4)
   \<and> (\<exists>s'. playerDied exampleEnv ''a'' (Payload (Some ''b'')) duelRoom = Inr s'
        \<and> map_option alive (map_of (players s') ''a'') = Some False
        \<and> map_of (players s') ''b'' = Some ((snake ''b'' 100 100 5 4)\<lparr>score := 9, kills := 1\<rparr>)
        \<and> (\<exists>drops. broadcasts s' = [PlayerDied ''a'', PlayerKilled ''a'' ''b''] @ drops
              \<and> length drops = 3 \<and> list_all isFoodSpawned drops))
   \<and> (\<exists>s'. playerDied exampleEnv ''a'' (Payload None) duelRoom = Inr s'
        \<and> (\<exists>drops. broadcasts s' = [PlayerDied ''a''] @ drops
              \<and> length drops = 3 \<and> list_all isFoodSpawned drops))
   \<and> playerDied exampleEnv ''zz'' NoPayload duelRoom = Inr duelRoom
   \<and> playerDied exampleEnv ''d'' (Payload (Some ''b'')) duelRoom = Inr duelRoom"
  using playerDied_transition [of duelRoom "''a''" "snake ''a'' 500 500 10 10" "''b''"
      "snake ''b'' 100 100 5 4" exampleEnv None]
    playerDied_transition [of duelRoom "''zz''" _ _ _ exampleEnv _ NoPayload]
    playerDied_transition [of duelRoom "''d''" "(snake ''d'' 800 800 5 0)\<lparr>alive := False\<rparr>"
      _ _ exampleEnv _ "Payload (Some ''b'')"]
  by (simp add: duelRoom_lookup snake_fields body_length) blast

text \<open>
  Claim C9 as stated fails: a killer id is supplied, it names nobody in the room, and no
  \<^verbatim>\<open>playerKilled\<close> is broadcast and no score moves.
\<close>

theorem playerDied_unknown_killer_counterexample:
  "map_of (players duelRoom) ''a'' = Some (snake ''a'' 500 500 10 10)
   \<and> alive (snake ''a'' 500 500 10 10)
   \<and> playerDied exampleEnv ''a'' (Payload (Some ''ghost'')) duelRoom =
       Inr (spawnFoodFromDeadPlayer exampleEnv (snake ''a'' 500 500 10 10)
              (killPlayer ''a'' duelRoom))
   \<and> filter isPlayerKilled
        (broadcasts (spawnFoodFromDeadPlayer exampleEnv (snake ''a'' 500 500 10 10)
           (killPlayer ''a'' duelRoom))) = []
   \<and> map_of (players (spawnFoodFromDeadPlayer exampleEnv (snake ''a'' 500 500 10 10)
        (killPlayer ''a'' duelRoom))) ''b''
       = Some (snake ''b'' 100 100 5 4)"
proof -
  have eq: "playerDied exampleEnv ''a'' (Payload (Some ''ghost'')) duelRoom =
      Inr (spawnFoodFromDeadPlayer exampleEnv (snake ''a'' 500 500 10 10)
             (killPlayer ''a'' duelRoom))"
    by (rule playerDied_unnamed [OF duelRoom_lookup(1), where kn = "''ghost''"])
       (simp_all add: snake_fields duelRoom_lookup)
  obtain drops where d:
    "broadcasts (spawnFoodFromDeadPlayer exampleEnv (snake ''a'' 500 500 10 10)
        (killPlayer ''a'' duelRoom)) =
       broadcasts (killPlayer ''a'' duelRoom) @ drops" "list_all isFoodSpawned drops"
    using spawnFoodFromDeadPlayer_broadcasts by blast
  have "filter isPlayerKilled
        (broadcasts (spawnFoodFromDeadPlayer exampleEnv (snake ''a'' 500 500 10 10)
           (killPlayer ''a'' duelRoom))) = []"
    using d food_events_only [OF d(2)]
    by (simp add: killPlayer_broadcasts [OF duelRoom_lookup(1)] duelRoom_lookup)
  moreover have "map_of (players (spawnFoodFromDeadPlayer exampleEnv (snake ''a'' 500 500 10 10)
        (killPlayer ''a'' duelRoom))) ''b''
       = Some (snake ''b'' 100 100 5 4)"
    by (simp add: killPlayer_lookup [OF duelRoom_lookup(1)] duelRoom_lookup)
  ultimately show ?thesis
    using eq by (simp add: duelRoom_lookup snake_fields)
qed

subsection \<open>No boundary death behind the wrap\<close>

lemma boundaryDeaths_simps [simp]:
  "boundaryDeaths (modifyPlayer k f s) = boundaryDeaths s"
  "boundaryDeaths (broadcast e s) = boundaryDeaths s @ (if isBoundaryDeath e then [e] else [])"
  by (simp_all add: boundaryDeaths_def)

lemma boundaryDeaths_killPlayer [simp]:
  "boundaryDeaths (killPlayer k s) = boundaryDeaths s"
  by (simp add: killPlayer_def split: option.split)

lemma boundaryDeaths_spawnFoodFromDeadPlayer [simp]:
  "boundaryDeaths (spawnFoodFromDeadPlayer env p s) = boundaryDeaths s"
proof -
  obtain drops where d: "broadcasts (spawnFoodFromDeadPlayer env p s) = broadcasts s @ drops"
      "list_all isFoodSpawned drops"
    using spawnFoodFromDeadPlayer_broadcasts by blast
  show ?thesis
    using d(1) food_events_only [OF d(2)] by (simp add: boundaryDeaths_def)
qed

lemma boundaryDeaths_spawnFood [simp]:
  "boundaryDeaths (spawnFood env s) = boundaryDeaths s"
  by (simp add: boundaryDeaths_def spawnFood_broadcasts)

lemma collideWith_fields [simp]:
  "worldWidth (collideWith env k h other s) = worldWidth s"
  "worldHeight (collideWith env k h other s) = worldHeight s"
  "maxFoods (collideWith env k h other s) = maxFoods s"
  "worldBoundaryCollisions (collideWith env k h other s) = worldBoundaryCollisions s"
  "boundaryDeaths (collideWith env k h other s) = boundaryDeaths s"
  by (simp_all add: collideWith_def Let_def split: option.split)

lemma fold_collideWith_fields [simp]:
  "worldWidth (fold (collideWith env k h) ks s) = worldWidth s"
  "worldHeight (fold (collideWith env k h) ks s) = worldHeight s"
  "maxFoods (fold (collideWith env k h) ks s) = maxFoods s"
  "worldBoundaryCollisions (fold (collideWith env k h) ks s) = worldBoundaryCollisions s"
  "boundaryDeaths (fold (collideWith env k h) ks s) = boundaryDeaths s"
  by (induction ks arbitrary: s; simp)+

lemma checkPlayerCollisions_fields [simp]:
  "worldWidth (checkPlayerCollisions env k s) = worldWidth s"
  "worldHeight (checkPlayerCollisions env k s) = worldHeight s"
  "maxFoods (checkPlayerCollisions env k s) = maxFoods s"
  "worldBoundaryCollisions (checkPlayerCollisions env k s) = worldBoundaryCollisions s"
  by (simp_all add: checkPlayerCollisions_def Let_def split: option.split list.split)

lemma checkPlayerCollisions_inside:
  assumes "\<And>p h rest. map_of (players s) k = Some p \<Longrightarrow> alive p \<Longrightarrow> segments p = h # rest \<Longrightarrow>
      0 \<le> vx h \<and> vx h \<le> worldWidth s \<and> 0 \<le> vy h \<and> vy h \<le> worldHeight s"
  shows "boundaryDeaths (checkPlayerCollisions env k s) = boundaryDeaths s"
proof (cases "map_of (players s) k")
  case None
  then show ?thesis by (simp add: checkPlayerCollisions_def)
next
  case (Some p)
  show ?thesis
  proof (cases "alive p")
    case False
    then show ?thesis using Some by (simp add: checkPlayerCollisions_def)
  next
    case True
    show ?thesis
    proof (cases "segments p")
      case Nil
      then show ?thesis using Some True by (simp add: checkPlayerCollisions_def)
    next
      case (Cons h rest)
      have "0 \<le> vx h \<and> vx h \<le> worldWidth s \<and> 0 \<le> vy h \<and> vy h \<le> worldHeight s"
        using assms [OF Some True Cons] .
      then have "\<not> (vx h < 0 \<or> vx h > worldWidth s \<or> vy h < 0 \<or> vy h > worldHeight s)"
        by auto
      then show ?thesis
        using Some True Cons by (simp add: checkPlayerCollisions_def Let_def)
    qed
  qed
qed

lemma movePlayer_idle:
  "\<not> alive p \<or> segments p = [] \<Longrightarrow> movePlayer w h p = p"
  by (auto simp: movePlayer_def)

lemma movePlayer_head_inside:
  assumes "alive p" and "segments p \<noteq> []" and "0 < w" and "0 < h"
    and "segments (movePlayer w h p) = hd0 # rest"
  shows "0 \<le> vx hd0 \<and> vx hd0 \<le> w \<and> 0 \<le> vy hd0 \<and> vy hd0 \<le> h"
proof -
  have "length (follow (length (segments (boostCost p)) - 1) (segments (boostCost p)))
      = Suc (length rest)"
    using movePlayer_boost_fields(5) [OF assms(1,2), of w h] assms(5)
    by (simp add: follow_length)
  then obtain a as where f:
    "follow (length (segments (boostCost p)) - 1) (segments (boostCost p)) = a # as"
    by (cases "follow (length (segments (boostCost p)) - 1) (segments (boostCost p))") simp_all
  show ?thesis
    using assms wrapCoordinate_range [OF assms(3)] wrapCoordinate_range [OF assms(4)] f
    by (auto simp: movePlayer_def Let_def updateHeadPosition_fields)
qed

lemma tickPlayer_fields [simp]:
  "worldWidth (tickPlayer env k s) = worldWidth s"
  "worldHeight (tickPlayer env k s) = worldHeight s"
  "maxFoods (tickPlayer env k s) = maxFoods s"
  "worldBoundaryCollisions (tickPlayer env k s) = worldBoundaryCollisions s"
  by (simp_all add: tickPlayer_def split: option.split)

lemma tickPlayer_boundaryDeaths:
  assumes "0 < worldWidth s" and "0 < worldHeight s"
  shows "boundaryDeaths (tickPlayer env k s) = boundaryDeaths s"
proof (cases "map_of (players s) k")
  case None
  then show ?thesis by (simp add: tickPlayer_def)
next
  case (Some p)
  show ?thesis
  proof (cases "alive p")
    case False
    then show ?thesis using Some by (simp add: tickPlayer_def)
  next
    case True
    define s1 where "s1 = modifyPlayer k (movePlayer (worldWidth s) (worldHeight s)) s"
    have l: "map_of (players s1) k = Some (movePlayer (worldWidth s) (worldHeight s) p)"
      using Some by (simp add: s1_def modifyPlayer_lookup)
    have inside: "0 \<le> vx h \<and> vx h \<le> worldWidth s1 \<and> 0 \<le> vy h \<and> vy h \<le> worldHeight s1"
      if "map_of (players s1) k = Some q" "alive q" "segments q = h # rest" for q h rest
    proof -
      have q: "q = movePlayer (worldWidth s) (worldHeight s) p" using that(1) l by simp
      have ne: "segments p \<noteq> []"
      proof
        assume "segments p = []"
        then have "movePlayer (worldWidth s) (worldHeight s) p = p"
          by (simp add: movePlayer_idle)
        then show False using q that(3) \<open>segments p = []\<close> by simp
      qed
      show ?thesis
        using movePlayer_head_inside [OF True ne assms, of hd0 rest for hd0] that(3) q
        by (simp add: s1_def)
    qed
    have "boundaryDeaths (checkPlayerCollisions env k s1) = boundaryDeaths s1"
      by (rule checkPlayerCollisions_inside) (rule inside)
    then show ?thesis
      using Some True by (simp add: tickPlayer_def s1_def)
  qed
qed

lemma fold_tickPlayer_boundaryDeaths:
  "0 < worldWidth s \<Longrightarrow> 0 < worldHeight s \<Longrightarrow>
   boundaryDeaths (fold (tickPlayer env) ks s) = boundaryDeaths s
   \<and> worldWidth (fold (tickPlayer env) ks s) = worldWidth s
   \<and> worldHeight (fold (tickPlayer env) ks s) = worldHeight s"
proof (induction ks arbitrary: s)
  case Nil
  then show ?case by simp
next
  case (Cons k ks)
  have "0 < worldWidth (tickPlayer env k s)" "0 < worldHeight (tickPlayer env k s)"
    using Cons.prems by simp_all
  from Cons.IH [OF this] show ?case
    using tickPlayer_boundaryDeaths [OF Cons.prems, of env k] by simp
qed

lemma gameLoop_boundaryDeaths:
  assumes "0 < worldWidth s" and "0 < worldHeight s"
  shows "boundaryDeaths (gameLoop env s) = boundaryDeaths s"
  using fold_tickPlayer_boundaryDeaths [OF assms, of env "map fst (players s)"]
  by (simp add: gameLoop_def updatePlayers_def Let_def)

lemma movePlayer_head_nth_inside:
  assumes "alive p" and "segments p \<noteq> []" and "0 < w" and "0 < h"
  shows "0 \<le> vx (segments (movePlayer w h p) ! 0) \<and> vx (segments (movePlayer w h p) ! 0) \<le> w
     \<and> 0 \<le> vy (segments (movePlayer w h p) ! 0) \<and> vy (segments (movePlayer w h p) ! 0) \<le> h"
proof -
  have "segments (boostCost p) \<noteq> []"
    using boostCost_segments [of p] assms(2) by (auto simp: butlast_conv_take)
  then have "length (segments (movePlayer w h p)) \<noteq> 0"
    by (simp add: movePlayer_boost_fields(5) [OF assms(1,2)])
  then obtain hd0 rest where "segments (movePlayer w h p) = hd0 # rest"
    by (cases "segments (movePlayer w h p)") simp_all
  then show ?thesis
    using movePlayer_head_inside [OF assms] by simp
qed

text \<open>
  Claim C8: in a world of positive width and height no tick declares a boundary death. The
  head that a movement step writes lies in \<open>[0, width]\<close> and \<open>[0, height]\<close>, the collision
  check that follows reads that head, and so the broadcasts of the boundary branch are the
  same after \<^const>\<open>gameLoop\<close> as before it.
\<close>

theorem no_boundary_death_behind_wrap:
  assumes "0 < worldWidth s" and "0 < worldHeight s"
  shows "boundaryDeaths (gameLoop env s) = boundaryDeaths s
     \<and> (alive p \<and> segments p \<noteq> [] \<longrightarrow>
          0 \<le> vx (segments (movePlayer (worldWidth s) (worldHeight s) p) ! 0)
        \<and> vx (segments (movePlayer (worldWidth s) (worldHeight s) p) ! 0) \<le> worldWidth s
        \<and> 0 \<le> vy (segments (movePlayer (worldWidth s) (worldHeight s) p) ! 0)
        \<and> vy (segments (movePlayer (worldWidth s) (worldHeight s) p) ! 0) \<le> worldHeight s)"
  using gameLoop_boundaryDeaths [OF assms, of env] movePlayer_head_nth_inside [OF _ _ assms, of p]
  by blast

text \<open>Scenario A of the spec: from \<open>x = 995\<close> the head moves by 9 and wraps to \<open>x = 4\<close>.\<close>

lemma edgeSnake_moved:
  "segments (movePlayer 1000 1000 edgeSnake) ! 0 = \<lparr>vx = 4, vy = 500\<rparr>"
  by (simp add: movePlayer_def edgeSnake_def snake_def Let_def boostCost_def body_5
      updateHeadPosition_def wrapCoordinate_def js_rem_def trunc_def DEG_TO_RAD_def)

theorem no_boundary_death_behind_wrap_witness:
  "0 < worldWidth edgeRoom \<and> 0 < worldHeight edgeRoom \<and> worldBoundaryCollisions edgeRoom
   \<and> boundaryDeaths (gameLoop exampleEnv edgeRoom) = []
   \<and> alive edgeSnake \<and> segments edgeSnake \<noteq> []
   \<and> segments (movePlayer 1000 1000 edgeSnake) ! 0 = \<lparr>vx = 4, vy = 500\<rparr>
   \<and> vx (segments (movePlayer 1000 1000 edgeSnake) ! 0) \<le> 1000"
proof -
  have f: "worldWidth edgeRoom = 1000" "worldHeight edgeRoom = 1000"
      "worldBoundaryCollisions edgeRoom" "boundaryDeaths edgeRoom = []"
    by (simp_all add: edgeRoom_def exampleRoom_def boundaryDeaths_def)
  have p: "alive edgeSnake" "segments edgeSnake \<noteq> []"
    by (simp_all add: edgeSnake_def snake_def body_5)
  show ?thesis
    using no_boundary_death_behind_wrap [of edgeRoom exampleEnv edgeSnake] p
    by (simp add: f edgeSnake_moved)
qed

subsection \<open>Two bodies in range of one head\<close>

lemma pileup_hit:
  "distance \<lparr>vx = 500, vy = 500\<rparr> \<lparr>vx = 500, vy = 505\<rparr> < headRadius + segmentRadius"
  "distance \<lparr>vx = 500, vy = 500\<rparr> \<lparr>vx = 500, vy = 495\<rparr> < headRadius + segmentRadius"
  by (simp_all add: distance_less_iff headRadius_def segmentRadius_def)

text \<open>
  Claim C1 says that the check stops at the first collision, with one death event, one killer
  credited and \<open>min (segments div 3) 20\<close> food items, also when the head is in range of two
  other players. The \<^verbatim>\<open>return\<close> after a collision leaves only the callback of the current
  other player, and \<^verbatim>\<open>forEach\<close> goes on: in \<^const>\<open>pileupRoom\<close> the snake \<open>a\<close> is killed
  twice, \<open>b\<close> and \<open>c\<close> are both credited with 5 points and a kill, and 2 food items are
  dropped where the body of 5 segments yields 1.
\<close>

theorem checkPlayerCollisions_kills_twice:
  "filter isPlayerDied (broadcasts (checkPlayerCollisions exampleEnv ''a'' pileupRoom))
     = [PlayerDied ''a'', PlayerDied ''a'']
   \<and> filter isPlayerKilled (broadcasts (checkPlayerCollisions exampleEnv ''a'' pileupRoom))
     = [PlayerKilled ''a'' ''b'', PlayerKilled ''a'' ''c'']
   \<and> map_option score (map_of (players (checkPlayerCollisions exampleEnv ''a'' pileupRoom)) ''b'')
     = Some 5
   \<and> map_option score (map_of (players (checkPlayerCollisions exampleEnv ''a'' pileupRoom)) ''c'')
     = Some 5
   \<and> map_option kills (map_of (players (checkPlayerCollisions exampleEnv ''a'' pileupRoom)) ''b'')
     = Some 1
   \<and> map_option kills (map_of (players (checkPlayerCollisions exampleEnv ''a'' pileupRoom)) ''c'')
     = Some 1
   \<and> length (filter isFoodSpawned (broadcasts (checkPlayerCollisions exampleEnv ''a'' pileupRoom)))
     = 2
   \<and> min (length (segments (snake ''a'' 500 500 5 10)) div 3) 20 = 1"
  by (simp add: checkPlayerCollisions_def pileupRoom_def exampleRoom_def snake_def body_5
      collideWith_def killPlayer_def modifyPlayer_def broadcast_def Let_def pileup_hit
      spawnFoodFromDeadPlayer_def dropOneFood_def exampleEnv_def)

end
